theory Spec2Isabelle
  imports Complex_Main "HOL-Library.Word" "HOL-Library.Product_Lexorder"
begin

section \<open>JavaScript values used by the two route handlers\<close>

text \<open>
  A JavaScript string is a sequence of UTF-16 code units, and \<^verbatim>\<open>.length\<close> counts code
  units. The model keeps that: a string is a list of 16-bit words. String literals of the
  source are ASCII and are written through \<open>js\<close>.
\<close>

type_synonym jsstring = "16 word list"

definition js :: "string \<Rightarrow> jsstring" where
  "js s = map (\<lambda>c. word_of_nat (of_char c)) s"

text \<open>
  ECMAScript's WhiteSpace and LineTerminator code points, which \<^verbatim>\<open>String.prototype.trim\<close>
  and the first step of \<^verbatim>\<open>parseInt\<close> strip: TAB, LF, VT, FF, CR, SP, NBSP, U+1680,
  U+2000..U+200A, U+2028, U+2029, U+202F, U+205F, U+3000 and U+FEFF.
\<close>

definition isWhiteSpace :: "16 word \<Rightarrow> bool" where
  "isWhiteSpace c \<longleftrightarrow>
     c \<in> {0x09, 0x0A, 0x0B, 0x0C, 0x0D, 0x20, 0xA0, 0x1680, 0x2028, 0x2029,
          0x202F, 0x205F, 0x3000, 0xFEFF}
     \<or> (0x2000 \<le> c \<and> c \<le> 0x200A)"

definition trimStart :: "jsstring \<Rightarrow> jsstring" where
  "trimStart s = dropWhile isWhiteSpace s"

definition trim :: "jsstring \<Rightarrow> jsstring" where
  "trim s = rev (dropWhile isWhiteSpace (rev (dropWhile isWhiteSpace s)))"

subsection \<open>parseInt and the default of a numeric form field\<close>

text \<open>
  \<^verbatim>\<open>parseInt(string)\<close> with no radix, after ECMA-262: strip leading white space, read
  an optional sign, switch to radix 16 after a \<^verbatim>\<open>0x\<close> or \<^verbatim>\<open>0X\<close> prefix, and take the
  longest prefix of digits of the radix. No digit gives NaN, which is \<open>None\<close> here. The
  result is the mathematical integer the digits denote (JavaScript rounds it to a double
  past \<open>2^53\<close>; rounding never turns a non-zero integer into zero or NaN, so the test
  \<^verbatim>\<open>value || default\<close> is decided by the integer). Zero with a minus sign is \<^verbatim>\<open>-0\<close>,
  which is falsy as \<^verbatim>\<open>0\<close> is: both are \<open>Some 0\<close>.
\<close>

type_synonym number = "int option"

definition digitValue :: "16 word \<Rightarrow> nat option" where
  "digitValue c =
     (if 0x30 \<le> c \<and> c \<le> 0x39 then Some (unat c - 0x30)
      else if 0x61 \<le> c \<and> c \<le> 0x7A then Some (unat c - 0x61 + 10)
      else if 0x41 \<le> c \<and> c \<le> 0x5A then Some (unat c - 0x41 + 10)
      else None)"

definition isRadixDigit :: "nat \<Rightarrow> 16 word \<Rightarrow> bool" where
  "isRadixDigit R c = (case digitValue c of None \<Rightarrow> False | Some d \<Rightarrow> d < R)"

definition mathInt :: "nat \<Rightarrow> jsstring \<Rightarrow> int" where
  "mathInt R Z = foldl (\<lambda>acc c. acc * int R + (case digitValue c of None \<Rightarrow> 0 | Some d \<Rightarrow> int d)) 0 Z"

definition parseInt :: "jsstring \<Rightarrow> number" where
  "parseInt inputString =
     (let S = trimStart inputString;
          sign = (if S \<noteq> [] \<and> hd S = 0x2D then - 1 else 1 :: int);
          S1 = (if S \<noteq> [] \<and> (hd S = 0x2B \<or> hd S = 0x2D) then tl S else S);
          hex = (length S1 \<ge> 2 \<and> (take 2 S1 = js ''0x'' \<or> take 2 S1 = js ''0X''));
          R = (if hex then 16 else 10);
          S2 = (if hex then drop 2 S1 else S1);
          Z = takeWhile (isRadixDigit R) S2
      in if Z = [] then None else Some (sign * mathInt R Z))"

text \<open>
  \<^verbatim>\<open>formData.get(key) as string\<close> is \<^verbatim>\<open>null\<close> when the field is absent; \<^verbatim>\<open>parseInt\<close>
  first converts its argument to a string, and \<^verbatim>\<open>null\<close> converts to \<^verbatim>\<open>"null"\<close>.
\<close>

definition ToString_field :: "jsstring option \<Rightarrow> jsstring" where
  "ToString_field v = (case v of None \<Rightarrow> js ''null'' | Some s \<Rightarrow> s)"

text \<open>\<^verbatim>\<open>x || d\<close> on a number: NaN, \<^verbatim>\<open>0\<close> and \<^verbatim>\<open>-0\<close> are falsy.\<close>

definition number_or :: "number \<Rightarrow> int \<Rightarrow> int" where
  "number_or x d = (case x of None \<Rightarrow> d | Some n \<Rightarrow> if n = 0 then d else n)"

text \<open>
  Lines 18 and 19 of the upload route and lines 13 and 14 of the preview route:
  \<^verbatim>\<open>parseInt(formData.get('chunkSize') as string) || 5000\<close> and
  \<^verbatim>\<open>parseInt(formData.get('chunkOverlap') as string) || 500\<close>.
\<close>

definition chunkSize_of :: "jsstring option \<Rightarrow> int" where
  "chunkSize_of field = number_or (parseInt (ToString_field field)) 5000"

definition chunkOverlap_of :: "jsstring option \<Rightarrow> int" where
  "chunkOverlap_of field = number_or (parseInt (ToString_field field)) 500"

text \<open>
  What \<^verbatim>\<open>throw\<close> can carry: an \<^verbatim>\<open>Error\<close> (or one of a subclass such as \<^verbatim>\<open>TypeError\<close> and
  \<^verbatim>\<open>RangeError\<close>), which has a message, or any other value. The handlers test
  \<^verbatim>\<open>e instanceof Error\<close>.
\<close>

datatype thrown = Error jsstring | TypeError jsstring | RangeError jsstring | NonError

definition join :: "jsstring \<Rightarrow> jsstring list \<Rightarrow> jsstring" where
  "join sep xs = (case xs of [] \<Rightarrow> [] | y # ys \<Rightarrow> y @ concat (map (\<lambda>z. sep @ z) ys))"

section \<open>The PDF parser abstraction (pdf-parsers)\<close>

record PDFParserFeatures =
  extractText :: bool
  extractMetadata :: bool
  handleEncrypted :: bool
  handleImages :: bool
  preserveFormatting :: bool
  ocrCapability :: bool

text \<open>The two classes that implement \<^verbatim>\<open>PDFParser\<close>, with their fields and \<^verbatim>\<open>supportsFeatures()\<close>.\<close>

datatype ParserClass = PDFParseParser | MockPDFParser

fun name_of :: "ParserClass \<Rightarrow> jsstring" where
  "name_of PDFParseParser = js ''pdf-parse''"
| "name_of MockPDFParser = js ''mock''"

fun description_of :: "ParserClass \<Rightarrow> jsstring" where
  "description_of PDFParseParser =
     js ''Fast PDF text extraction using pdf-parse library. Good for standard PDFs with embedded text.''"
| "description_of MockPDFParser = js ''Mock parser for testing purposes. Returns sample text.''"

fun supportsFeatures :: "ParserClass \<Rightarrow> PDFParserFeatures" where
  "supportsFeatures PDFParseParser =
     \<lparr>extractText = True, extractMetadata = True, handleEncrypted = False,
      handleImages = False, preserveFormatting = False, ocrCapability = False\<rparr>"
| "supportsFeatures MockPDFParser =
     \<lparr>extractText = True, extractMetadata = True, handleEncrypted = True,
      handleImages = False, preserveFormatting = False, ocrCapability = False\<rparr>"

text \<open>The registry: an object literal, so its own keys are in insertion order.\<close>

definition AVAILABLE_PARSERS :: "(jsstring \<times> ParserClass) list" where
  "AVAILABLE_PARSERS = [(js ''pdf-parse'', PDFParseParser), (js ''mock'', MockPDFParser)]"

definition Object_keys :: "(jsstring \<times> 'a) list \<Rightarrow> jsstring list" where
  "Object_keys obj = map fst obj"

text \<open>
  \<^verbatim>\<open>AVAILABLE_PARSERS[parserType]\<close> is a property read on an ordinary object. A read that
  finds no own property goes on to \<^verbatim>\<open>Object.prototype\<close>, so the names below are found
  although they are no keys of the registry (ECMA-262, properties of the Object prototype
  object, with Annex B): \<^verbatim>\<open>constructor\<close> is the function \<^verbatim>\<open>Object\<close>, \<^verbatim>\<open>__proto__\<close> is
  \<^verbatim>\<open>Object.prototype\<close> itself, and the others are built-in methods. All of them are
  truthy. Only \<^verbatim>\<open>Object\<close> can be called with \<^verbatim>\<open>new\<close>; \<^verbatim>\<open>new Object()\<close> is a fresh empty
  object.
\<close>

definition Object_prototype_methods :: "jsstring list" where
  "Object_prototype_methods =
     map js [''__defineGetter__'', ''__defineSetter__'', ''hasOwnProperty'',
             ''__lookupGetter__'', ''__lookupSetter__'', ''isPrototypeOf'',
             ''propertyIsEnumerable'', ''toString'', ''valueOf'', ''__proto__'',
             ''toLocaleString'']"

datatype registry_value =
    undefined_value
  | registered ParserClass
  | Object_function
  | not_a_constructor

definition registry_get :: "jsstring \<Rightarrow> registry_value" where
  "registry_get parserType =
     (case map_of AVAILABLE_PARSERS parserType of
        Some ParserClass \<Rightarrow> registered ParserClass
      | None \<Rightarrow>
          if parserType = js ''constructor'' then Object_function
          else if parserType \<in> set Object_prototype_methods then not_a_constructor
          else undefined_value)"

text \<open>What \<^verbatim>\<open>new ParserClass()\<close> can give: an instance of a parser class, or a plain object.\<close>

datatype parser_object = parser_instance ParserClass | plain_object

text \<open>
  \<^verbatim>\<open>PDFParserFactory.create(parserType = 'pdf-parse')\<close>: the default stands for an argument
  that is \<^verbatim>\<open>undefined\<close> (\<open>None\<close>). The guard \<^verbatim>\<open>!ParserClass\<close> is true for \<^verbatim>\<open>undefined\<close> only.
\<close>

definition create :: "jsstring option \<Rightarrow> thrown + parser_object" where
  "create arg =
     (let parserType = (case arg of None \<Rightarrow> js ''pdf-parse'' | Some p \<Rightarrow> p) in
      case registry_get parserType of
        undefined_value \<Rightarrow>
          Inl (Error (js ''Parser '' @ [0x27] @ parserType @ [0x27]
                      @ js '' not found. Available parsers: ''
                      @ join (js '', '') (Object_keys AVAILABLE_PARSERS)))
      | registered ParserClass \<Rightarrow> Inr (parser_instance ParserClass)
      | Object_function \<Rightarrow> Inr plain_object
      | not_a_constructor \<Rightarrow> Inl (TypeError (js ''ParserClass is not a constructor'')))"

record parser_info =
  name :: jsstring
  description :: jsstring
  features :: PDFParserFeatures

definition getAvailableParsers :: "parser_info list" where
  "getAvailableParsers =
     map (\<lambda>(name, ParserClass).
            \<lparr>name = name, description = description_of ParserClass,
             features = supportsFeatures ParserClass\<rparr>)
         AVAILABLE_PARSERS"

text \<open>
  \<^verbatim>\<open>requirements?: Partial<PDFParserFeatures>\<close>. The function reads it through
  \<^verbatim>\<open>Object.entries\<close> only, so the model takes the entries: each one of the six keys of
  \<^verbatim>\<open>PDFParserFeatures\<close> with a boolean or \<^verbatim>\<open>undefined\<close> (\<open>None\<close>), which \<^verbatim>\<open>Partial\<close> allows.
  No argument is \<open>None\<close>.
\<close>

datatype feature =
  extractText_key | extractMetadata_key | handleEncrypted_key
  | handleImages_key | preserveFormatting_key | ocrCapability_key

fun features_get :: "PDFParserFeatures \<Rightarrow> feature \<Rightarrow> bool" where
  "features_get fs extractText_key = extractText fs"
| "features_get fs extractMetadata_key = extractMetadata fs"
| "features_get fs handleEncrypted_key = handleEncrypted fs"
| "features_get fs handleImages_key = handleImages fs"
| "features_get fs preserveFormatting_key = preserveFormatting fs"
| "features_get fs ocrCapability_key = ocrCapability fs"

type_synonym requirements = "(feature \<times> bool option) list"

definition meets :: "requirements \<Rightarrow> parser_info \<Rightarrow> bool" where
  "meets requirements parser =
     list_all (\<lambda>(feature, required).
                 if required \<noteq> Some True then True
                 else features_get (features parser) feature)
              requirements"

fun first_meeting :: "requirements \<Rightarrow> parser_info list \<Rightarrow> jsstring" where
  "first_meeting requirements [] = js ''pdf-parse''"
| "first_meeting requirements (parser # parsers) =
     (if meets requirements parser then name parser
      else first_meeting requirements parsers)"

definition getBestParser :: "requirements option \<Rightarrow> jsstring" where
  "getBestParser arg =
     (case arg of
        None \<Rightarrow> js ''pdf-parse''
      | Some requirements \<Rightarrow> first_meeting requirements getAvailableParsers)"

section \<open>The feedback table and its similarity function (setup-feedback-table.sql)\<close>

text \<open>
  A row of table \<^verbatim>\<open>feedback\<close>. A nullable column is an option (\<open>None\<close> is SQL's NULL).
  A \<^verbatim>\<open>text\<close> value is a list of code points. The vector type and its cosine-distance
  operator \<^verbatim>\<open><=>\<close> belong to the pgvector extension: the vector type is the parameter
  \<open>'v\<close> and the operator is the parameter \<open>cosine_distance\<close> of the function below, a
  \<^verbatim>\<open>float8\<close> read as a real number.
\<close>

type_synonym pg_text = "nat list"

record 'v feedback =
  id_col :: nat
  user_query :: pg_text
  ai_response :: pg_text
  feedback_type :: pg_text
  chat_id :: "pg_text option"
  rating :: "int option"
  comment :: "pg_text option"
  query_embedding :: "'v option"
  created_at :: nat

text \<open>A row of the function's \<^verbatim>\<open>RETURNS TABLE\<close>.\<close>

record match_row =
  m_id :: nat
  m_user_query :: pg_text
  m_ai_response :: pg_text
  m_feedback_type :: pg_text
  m_chat_id :: "pg_text option"
  m_rating :: "int option"
  m_comment :: "pg_text option"
  m_created_at :: nat
  similarity :: "real option"

text \<open>\<^verbatim>\<open>TRIM(s)\<close> with no character list removes spaces (U+0020) from both ends.\<close>

definition TRIM :: "pg_text \<Rightarrow> pg_text" where
  "TRIM s = rev (dropWhile (\<lambda>c. c = 32) (rev (dropWhile (\<lambda>c. c = 32) s)))"

text \<open>
  The function is written in PL/pgSQL, and its parameter \<^verbatim>\<open>query_embedding\<close> has the name
  of a column of \<^verbatim>\<open>feedback\<close>, the table of the query's \<^verbatim>\<open>FROM\<close>. The three places
  where the query writes \<^verbatim>\<open>query_embedding\<close> with no qualifier (lines 58, 60 and 63) can
  therefore mean the parameter or the column. PL/pgSQL decides by the setting
  \<^verbatim>\<open>plpgsql.variable_conflict\<close> (PostgreSQL manual, PL/pgSQL under the hood, Variable
  Substitution): \<^verbatim>\<open>error\<close>, the default, reports
  \<^verbatim>\<open>column reference "query_embedding" is ambiguous\<close> when the statement is first
  analysed, that is at the call (\<^verbatim>\<open>CREATE FUNCTION\<close> checks the body's syntax only);
  \<^verbatim>\<open>use_variable\<close> reads the parameter; \<^verbatim>\<open>use_column\<close> reads the column. The script
  neither sets it nor gives the function a \<^verbatim>\<open>#variable_conflict\<close> line, so the default
  is in force; the model takes the setting as an argument.
\<close>

datatype variable_conflict = vc_error | vc_use_variable | vc_use_column

definition default_variable_conflict :: variable_conflict where
  "default_variable_conflict = vc_error"

datatype pg_error = ambiguous_column_reference | negative_limit

datatype reference = plpgsql_variable | table_column

definition resolve_unqualified :: "variable_conflict \<Rightarrow> pg_error + reference" where
  "resolve_unqualified vc =
     (case vc of
        vc_error \<Rightarrow> Inl ambiguous_column_reference
      | vc_use_variable \<Rightarrow> Inr plpgsql_variable
      | vc_use_column \<Rightarrow> Inr table_column)"

text \<open>
  \<^verbatim>\<open>feedback.query_embedding <=> query_embedding\<close> for one row: NULL when an operand is
  NULL.
\<close>

definition distance ::
  "('v \<Rightarrow> 'v \<Rightarrow> real) \<Rightarrow> reference \<Rightarrow> 'v option \<Rightarrow> 'v feedback \<Rightarrow> real option" where
  "distance cosine_distance ref param row =
     (let right = (case ref of plpgsql_variable \<Rightarrow> param
                              | table_column \<Rightarrow> query_embedding row)
      in case (query_embedding row, right) of
           (Some a, Some b) \<Rightarrow> Some (cosine_distance a b)
         | _ \<Rightarrow> None)"

text \<open>
  The \<^verbatim>\<open>WHERE\<close> clause in SQL's three-valued logic: a row is kept when the condition is
  true, not when it is false or NULL. \<^verbatim>\<open>feedback.comment IS NOT NULL\<close> is never NULL, and
  the two other conjuncts are NULL exactly when their operand is.
\<close>

definition where_clause ::
  "('v \<Rightarrow> 'v \<Rightarrow> real) \<Rightarrow> reference \<Rightarrow> 'v option \<Rightarrow> real option \<Rightarrow> 'v feedback \<Rightarrow> bool" where
  "where_clause cosine_distance ref param match_threshold row =
     ((case (distance cosine_distance ref param row, match_threshold) of
         (Some d, Some t) \<Rightarrow> 1 - d > t
       | _ \<Rightarrow> False)
      \<and> comment row \<noteq> None
      \<and> (case comment row of Some c \<Rightarrow> length (TRIM c) > 0 | None \<Rightarrow> False))"

definition select_list ::
  "('v \<Rightarrow> 'v \<Rightarrow> real) \<Rightarrow> reference \<Rightarrow> 'v option \<Rightarrow> 'v feedback \<Rightarrow> match_row" where
  "select_list cosine_distance ref param row =
     \<lparr>m_id = id_col row, m_user_query = user_query row, m_ai_response = ai_response row,
      m_feedback_type = feedback_type row, m_chat_id = chat_id row, m_rating = rating row,
      m_comment = comment row, m_created_at = created_at row,
      similarity = map_option (\<lambda>d. 1 - d) (distance cosine_distance ref param row)\<rparr>"

text \<open>
  \<^verbatim>\<open>ORDER BY\<close> sorts the kept rows by distance, ascending, which puts NULL last: the
  key is the pair of "is NULL" and the value, in lexicographic order. Rows of equal
  distance come in the order of the table here (PostgreSQL promises no order among them).
  \<^verbatim>\<open>LIMIT match_count\<close>: NULL is no limit, a negative count is the error
  \<^verbatim>\<open>LIMIT must not be negative\<close>.
\<close>

definition order_key ::
  "('v \<Rightarrow> 'v \<Rightarrow> real) \<Rightarrow> reference \<Rightarrow> 'v option \<Rightarrow> 'v feedback \<Rightarrow> bool \<times> real" where
  "order_key cosine_distance ref param row =
     (case distance cosine_distance ref param row of
        Some d \<Rightarrow> (False, d)
      | None \<Rightarrow> (True, 0))"

definition match_feedback_by_embedding ::
  "variable_conflict \<Rightarrow> ('v \<Rightarrow> 'v \<Rightarrow> real) \<Rightarrow> 'v feedback list
     \<Rightarrow> 'v option \<Rightarrow> real option \<Rightarrow> int option \<Rightarrow> pg_error + match_row list" where
  "match_feedback_by_embedding vc cosine_distance feedback_table param match_threshold match_count =
     (case resolve_unqualified vc of
        Inl e \<Rightarrow> Inl e
      | Inr ref \<Rightarrow>
          let kept = filter (where_clause cosine_distance ref param match_threshold)
                       feedback_table;
              ordered = sort_key (order_key cosine_distance ref param) kept;
              selected = map (select_list cosine_distance ref param) ordered
          in case match_count of
               None \<Rightarrow> Inr selected
             | Some n \<Rightarrow> if n < 0 then Inl negative_limit else Inr (take (nat n) selected))"

section \<open>Values, files and the services the routes call\<close>

text \<open>
  A JavaScript value as \<^verbatim>\<open>JSON.parse\<close> can return it, with \<^verbatim>\<open>undefined\<close> for a property
  that is not there. An object is the list of its own properties, each key once.
\<close>

datatype jsval =
    Undefined
  | Null
  | Bool bool
  | Num real
  | Str jsstring
  | Arr "jsval list"
  | Obj "(jsstring \<times> jsval) list"

fun truthy :: "jsval \<Rightarrow> bool" where
  "truthy Undefined = False"
| "truthy Null = False"
| "truthy (Bool b) = b"
| "truthy (Num x) = (x \<noteq> 0)"
| "truthy (Str s) = (s \<noteq> [])"
| "truthy (Arr xs) = True"
| "truthy (Obj kvs) = True"

definition js_or :: "jsval \<Rightarrow> jsval \<Rightarrow> jsval" where
  "js_or a b = (if truthy a then a else b)"

text \<open>
  \<^verbatim>\<open>metadata.key\<close>: a TypeError on \<^verbatim>\<open>null\<close> and \<^verbatim>\<open>undefined\<close>, the property's value on
  an object, \<^verbatim>\<open>undefined\<close> where there is none. The routes read the keys \<^verbatim>\<open>title\<close>,
  \<^verbatim>\<open>author\<close>, \<^verbatim>\<open>topic\<close>, \<^verbatim>\<open>doc_type\<close>, \<^verbatim>\<open>genre\<close>, \<^verbatim>\<open>difficulty\<close>, \<^verbatim>\<open>tags\<close> and
  \<^verbatim>\<open>description\<close>, none of which a prototype of a JSON value defines.
\<close>

fun nullish :: "jsval \<Rightarrow> bool" where
  "nullish Undefined = True"
| "nullish Null = True"
| "nullish v = False"

fun own_property :: "jsval \<Rightarrow> jsstring \<Rightarrow> jsval" where
  "own_property (Obj kvs) key = (case map_of kvs key of Some v \<Rightarrow> v | None \<Rightarrow> Undefined)"
| "own_property v key = Undefined"

definition get_property :: "jsval \<Rightarrow> jsstring \<Rightarrow> thrown + jsval" where
  "get_property v key =
     (if nullish v then Inl (TypeError (js ''Cannot read properties of null or undefined''))
      else Inr (own_property v key))"

text \<open>Decimal digits of a natural number: an array index as a key, a count in a message.\<close>

fun decimal :: "nat \<Rightarrow> jsstring" where
  "decimal n =
     (if n < 10 then [0x30 + word_of_nat n]
      else decimal (n div 10) @ [0x30 + word_of_nat (n mod 10)])"

declare decimal.simps [simp del]

text \<open>
  The own enumerable properties an object spread \<^verbatim>\<open>{...v}\<close> copies: those of an object,
  the elements of an array and the code units of a string under their indices, and
  nothing for the other values.
\<close>

fun spread :: "jsval \<Rightarrow> (jsstring \<times> jsval) list" where
  "spread (Obj kvs) = kvs"
| "spread (Arr xs) = zip (map decimal [0..<length xs]) xs"
| "spread (Str s) = zip (map decimal [0..<length s]) (map (\<lambda>c. Str [c]) s)"
| "spread v = []"

text \<open>An object under construction: a map from keys to values, a later key replacing an earlier one.\<close>

type_synonym object = "jsstring \<rightharpoonup> jsval"

record File =
  file_name :: jsstring
  file_size :: nat

text \<open>\<^verbatim>\<open>PDFParseResult\<close>; \<^verbatim>\<open>parseTime\<close> is optional, and \<^verbatim>\<open>metadata\<close> is an object.\<close>

record PDFParseResult =
  pdf_text :: jsstring
  pdf_metadata :: jsval
  parseTime :: "int option"
  parserUsed :: jsstring

text \<open>
  The text splitter the \<^verbatim>\<open>switch\<close> on \<^verbatim>\<open>splitterType\<close> constructs: the class, chunk size,
  chunk overlap and, where the route gives one, the list of separators.
\<close>

datatype TextSplitter =
    CharacterTextSplitter int int
  | RecursiveCharacterTextSplitter int int "jsstring list option"

text \<open>The row the upload route inserts into \<^verbatim>\<open>documents_enhanced\<close> (lines 135 to 160).\<close>

record documents_enhanced =
  content :: jsstring
  metadata :: object
  embedding :: "real list"
  title :: jsval
  author :: jsval
  doc_type :: jsval
  genre :: jsval
  topic :: jsval
  difficulty :: jsval
  tags :: jsval
  source_type :: jsstring
  summary :: jsval
  chunk_id :: nat
  total_chunks_col :: nat
  source :: jsstring

text \<open>
  What lies outside the repository's code: the Supabase client and its table, the OpenAI
  embedding call, LangChain's text splitters, the reading of an uploaded file, the
  environment, and the two built-ins \<^verbatim>\<open>JSON.parse\<close> and the conversion of a value to a
  string in a template literal (\<open>ToString\<close>). \<^verbatim>\<open>parsePDF\<close> is the function of pdf-parsers; what it returns
  depends on the pdf-parse library and on the clock, and every outcome is allowed here.
  Each call either returns or throws. A call made once for every file takes the position
  of the file in the request, and a call made once for every chunk takes the positions of
  file and chunk, so that two calls with equal arguments can end differently.
  \<^verbatim>\<open>insert_row\<close> is \<^verbatim>\<open>supabase.from('documents_enhanced').insert(row)\<close>: it throws, or
  returns an object whose \<^verbatim>\<open>error\<close> is set (\<open>Some\<close>) or not.
  \<open>max_arguments\<close> is a limit of the JavaScript engine: the greatest number of arguments
  a call can pass where the preview route spreads an array into one (lines 152 and 153).
  The engine has such a limit because the arguments go on the call stack, and a call with
  more of them throws a \<^verbatim>\<open>RangeError\<close>.
\<close>

record env =
  createServerSupabaseClient :: "thrown option"
  JSON_parse :: "jsstring \<Rightarrow> thrown + jsval"
  ToString :: "jsval \<Rightarrow> thrown + jsstring"
  NODE_ENV :: "jsstring option"
  new_TextSplitter :: "TextSplitter \<Rightarrow> thrown option"
  splitText :: "TextSplitter \<Rightarrow> jsstring \<Rightarrow> thrown + jsstring list"
  arrayBuffer :: "nat \<Rightarrow> File \<Rightarrow> thrown + 8 word list"
  parsePDF :: "nat \<Rightarrow> 8 word list \<Rightarrow> jsstring \<Rightarrow> bool \<Rightarrow> thrown + PDFParseResult"
  generateEmbedding :: "nat \<Rightarrow> nat \<Rightarrow> jsstring \<Rightarrow> thrown + real list"
  insert_row :: "nat \<Rightarrow> nat \<Rightarrow> documents_enhanced \<Rightarrow> thrown + jsstring option"
  max_arguments :: nat

text \<open>
  The multipart form of a request, read as the routes read it: \<^verbatim>\<open>getAll('files')\<close>, and
  \<^verbatim>\<open>get(key) as string\<close> for the other keys, \<^verbatim>\<open>null\<close> (\<open>None\<close>) when the field is absent.
\<close>

record FormData =
  files :: "File list"
  metadata_field :: "jsstring option"
  splitterType_field :: "jsstring option"
  chunkSize_field :: "jsstring option"
  chunkOverlap_field :: "jsstring option"
  pdfParser_field :: "jsstring option"

text \<open>\<^verbatim>\<open>formData.get(key) as string || fallback\<close>: \<^verbatim>\<open>null\<close> and the empty string are falsy.\<close>

definition string_or :: "jsstring option \<Rightarrow> jsstring \<Rightarrow> jsstring" where
  "string_or v fallback = (case v of None \<Rightarrow> fallback | Some s \<Rightarrow> if s = [] then fallback else s)"

definition falsy_string :: "jsstring option \<Rightarrow> bool" where
  "falsy_string v = (case v of None \<Rightarrow> True | Some s \<Rightarrow> s = [])"

text \<open>The \<^verbatim>\<open>switch (splitterType)\<close> of both routes.\<close>

definition make_splitter :: "jsstring \<Rightarrow> int \<Rightarrow> int \<Rightarrow> TextSplitter" where
  "make_splitter splitterType chunkSize chunkOverlap =
     (if splitterType = js ''character'' then CharacterTextSplitter chunkSize chunkOverlap
      else if splitterType = js ''markdown'' then
        RecursiveCharacterTextSplitter chunkSize chunkOverlap
          (Some [[0x0A] @ js ''## '', [0x0A] @ js ''### '', [0x0A] @ js ''#### '',
                 [0x0A, 0x0A], [0x0A], js '' '', js ''''])
      else if splitterType = js ''html'' then
        RecursiveCharacterTextSplitter chunkSize chunkOverlap
          (Some [js ''</div>'', js ''</p>'', js ''</h1>'', js ''</h2>'', js ''</h3>'',
                 [0x0A, 0x0A], [0x0A], js '' '', js ''''])
      else RecursiveCharacterTextSplitter chunkSize chunkOverlap None)"

text \<open>A response: \<^verbatim>\<open>NextResponse.json(body, { status })\<close>, status 200 when none is given.\<close>

datatype 'a response = Response (status: nat) (body: 'a)

text \<open>\<^verbatim>\<open>!text || text.trim().length === 0\<close>\<close>

definition no_text :: "jsstring \<Rightarrow> bool" where
  "no_text text = (text = [] \<or> length (trim text) = 0)"

section \<open>The upload route (upload-documents/route.ts)\<close>

text \<open>
  Lines 121 to 126: the template literal and its \<^verbatim>\<open>.trim()\<close>. The first property read
  throws when \<^verbatim>\<open>metadata\<close> (\<open>md\<close>) is \<^verbatim>\<open>null\<close>; after it the reads cannot throw. Each
  value is converted to a string where it stands, and the conversion of an object can
  throw.
\<close>

definition contextEnhancedText :: "env \<Rightarrow> jsval \<Rightarrow> File \<Rightarrow> jsstring \<Rightarrow> thrown + jsstring" where
  "contextEnhancedText e md file chunk =
     (case get_property md (js ''title'') of
        Inl err \<Rightarrow> Inl err
      | Inr md_title \<Rightarrow>
     (case ToString e (js_or md_title (Str (file_name file))) of
        Inl err \<Rightarrow> Inl err
      | Inr source_text \<Rightarrow>
     (case ToString e (js_or (own_property md (js ''author'')) (Str (js ''Unknown''))) of
        Inl err \<Rightarrow> Inl err
      | Inr author_text \<Rightarrow>
     (case ToString e (js_or (own_property md (js ''topic'')) (Str (js ''General''))) of
        Inl err \<Rightarrow> Inl err
      | Inr topic_text \<Rightarrow>
          Inr (trim
            ([0x0A] @ js ''Company/Source: '' @ source_text
             @ [0x0A] @ js ''Author/Speaker: '' @ author_text
             @ [0x0A] @ js ''Topic: '' @ topic_text
             @ [0x0A] @ js ''Content: '' @ chunk
             @ [0x0A] @ js ''            ''))))))"

text \<open>
  The argument of \<^verbatim>\<open>insert\<close> (lines 135 to 160). \<^verbatim>\<open>undefined\<close> stands for the optional
  \<^verbatim>\<open>parseTime\<close> that is not there.
\<close>

definition number_value :: "int option \<Rightarrow> jsval" where
  "number_value x = (case x of None \<Rightarrow> Undefined | Some n \<Rightarrow> Num (real_of_int n))"

definition row_of ::
  "jsval \<Rightarrow> File \<Rightarrow> PDFParseResult \<Rightarrow> jsstring list \<Rightarrow> nat \<Rightarrow> real list \<Rightarrow> documents_enhanced" where
  "row_of md file pdfResult chunks i emb =
     \<lparr>content = chunks ! i,
      metadata = (map_of (spread md))
        (js ''chunk_index'' \<mapsto> Num (real i),
         js ''total_chunks'' \<mapsto> Num (real (length chunks)),
         js ''filename'' \<mapsto> Str (file_name file),
         js ''file_size'' \<mapsto> Num (real (file_size file)),
         js ''parser_used'' \<mapsto> Str (parserUsed pdfResult),
         js ''parse_time'' \<mapsto> number_value (parseTime pdfResult),
         js ''pdf_metadata'' \<mapsto> pdf_metadata pdfResult),
      embedding = emb,
      title = own_property md (js ''title''),
      author = js_or (own_property md (js ''author'')) Null,
      doc_type = js_or (own_property md (js ''doc_type'')) (Str (js ''Book'')),
      genre = js_or (own_property md (js ''genre'')) Null,
      topic = js_or (own_property md (js ''topic'')) Null,
      difficulty = js_or (own_property md (js ''difficulty'')) Null,
      tags = js_or (own_property md (js ''tags'')) Null,
      source_type = js ''pdf_upload'',
      summary = js_or (own_property md (js ''description'')) Null,
      chunk_id = i + 1,
      total_chunks_col = length chunks,
      source = file_name file\<rparr>"

text \<open>
  The body of the inner \<^verbatim>\<open>try\<close> up to the \<^verbatim>\<open>insert\<close> (lines 120 to 160) for chunk \<open>i\<close> of
  file \<open>k\<close>: what was thrown, or the \<^verbatim>\<open>error\<close> of the insert's result with the row.
\<close>

definition embed_and_insert ::
  "env \<Rightarrow> jsval \<Rightarrow> nat \<Rightarrow> File \<Rightarrow> PDFParseResult \<Rightarrow> jsstring list \<Rightarrow> nat
     \<Rightarrow> thrown + (jsstring option \<times> documents_enhanced)" where
  "embed_and_insert e md k file pdfResult chunks i =
     (case contextEnhancedText e md file (chunks ! i) of
        Inl err \<Rightarrow> Inl err
      | Inr text \<Rightarrow>
          (case generateEmbedding e k i text of
             Inl err \<Rightarrow> Inl err
           | Inr emb \<Rightarrow>
               (let row = row_of md file pdfResult chunks i emb in
                case insert_row e k i row of
                  Inl err \<Rightarrow> Inl err
                | Inr chunkError \<Rightarrow> Inr (chunkError, row))))"

text \<open>
  The state of the upload loops: the counters \<^verbatim>\<open>totalChunks\<close> and \<^verbatim>\<open>documentsCount\<close>, and
  the rows that inserts have added to \<^verbatim>\<open>documents_enhanced\<close> (an insert that returns no
  error has stored its row).
\<close>

record upload_state =
  totalChunks :: nat
  documentsCount_var :: nat
  stored :: "documents_enhanced list"

text \<open>
  One pass of the chunk loop with its \<^verbatim>\<open>catch (embeddingError)\<close> (lines 117 to 175):
  whatever is thrown is logged, a \<^verbatim>\<open>chunkError\<close> is logged, and only the \<^verbatim>\<open>else\<close> branch
  counts the chunk.
\<close>

definition chunk_step ::
  "env \<Rightarrow> jsval \<Rightarrow> nat \<Rightarrow> File \<Rightarrow> PDFParseResult \<Rightarrow> jsstring list \<Rightarrow> nat
     \<Rightarrow> upload_state \<Rightarrow> upload_state" where
  "chunk_step e md k file pdfResult chunks i st =
     (case embed_and_insert e md k file pdfResult chunks i of
        Inl embeddingError \<Rightarrow> st
      | Inr (Some chunkError, row) \<Rightarrow> st
      | Inr (None, row) \<Rightarrow>
          st\<lparr>totalChunks := totalChunks st + 1, stored := stored st @ [row]\<rparr>)"

text \<open>\<^verbatim>\<open>for (let i = 0; i < chunks.length; i++)\<close>, entered with \<open>i = 0\<close>.\<close>

function chunk_loop ::
  "env \<Rightarrow> jsval \<Rightarrow> nat \<Rightarrow> File \<Rightarrow> PDFParseResult \<Rightarrow> jsstring list \<Rightarrow> nat
     \<Rightarrow> upload_state \<Rightarrow> upload_state" where
  "chunk_loop e md k file pdfResult chunks i st =
     (if i < length chunks
      then chunk_loop e md k file pdfResult chunks (i + 1)
             (chunk_step e md k file pdfResult chunks i st)
      else st)"
  by pat_completeness auto
termination
  by (relation "measure (\<lambda>(e, md, k, file, pdfResult, chunks, i, st). length chunks - i)") auto

declare chunk_loop.simps [simp del]

text \<open>
  The body of the loop over the files with its \<^verbatim>\<open>catch (fileError)\<close> (lines 79 to 183),
  for the file at position \<open>k\<close>: a throw before the chunk loop and the two \<^verbatim>\<open>continue\<close>
  leave the state as it is; otherwise the chunks are processed and the file is counted.
\<close>

definition process_file ::
  "env \<Rightarrow> jsval \<Rightarrow> TextSplitter \<Rightarrow> jsstring \<Rightarrow> nat \<Rightarrow> File \<Rightarrow> upload_state \<Rightarrow> upload_state" where
  "process_file e md textSplitter pdfParser k file st =
     (case arrayBuffer e k file of
        Inl fileError \<Rightarrow> st
      | Inr buffer \<Rightarrow>
          (case parsePDF e k buffer pdfParser (NODE_ENV e = Some (js ''development'')) of
             Inl fileError \<Rightarrow> st
           | Inr pdfResult \<Rightarrow>
               if no_text (pdf_text pdfResult) then st
               else
                 (case splitText e textSplitter (pdf_text pdfResult) of
                    Inl fileError \<Rightarrow> st
                  | Inr chunks \<Rightarrow>
                      if length chunks = 0 then st
                      else
                        (let st' = chunk_loop e md k file pdfResult chunks 0 st
                         in st'\<lparr>documentsCount_var := documentsCount_var st' + 1\<rparr>))))"

text \<open>\<^verbatim>\<open>for (const file of files)\<close>; \<open>k\<close> is the position of the next file.\<close>

fun file_loop ::
  "env \<Rightarrow> jsval \<Rightarrow> TextSplitter \<Rightarrow> jsstring \<Rightarrow> nat \<Rightarrow> File list \<Rightarrow> upload_state \<Rightarrow> upload_state" where
  "file_loop e md textSplitter pdfParser k [] st = st"
| "file_loop e md textSplitter pdfParser k (file # rest) st =
     file_loop e md textSplitter pdfParser (k + 1) rest
       (process_file e md textSplitter pdfParser k file st)"

text \<open>The bodies of the upload route's responses.\<close>

datatype upload_body =
    upload_error jsstring
  | upload_result (success: bool) (documentsCount: nat) (chunksCount: nat) (message: jsstring)

text \<open>
  \<^verbatim>\<open>POST\<close>. The request either has a form that \<^verbatim>\<open>request.formData()\<close> returns or makes
  that call throw. The result is the response and the rows added to the table.
\<close>

definition POST_upload ::
  "env \<Rightarrow> thrown + FormData \<Rightarrow> upload_body response \<times> documents_enhanced list" where
  "POST_upload e request =
     (case createServerSupabaseClient e of
        Some err \<Rightarrow> (Response 500 (upload_error (js ''Internal server error'')), [])
      | None \<Rightarrow>
     (case request of
        Inl err \<Rightarrow> (Response 500 (upload_error (js ''Internal server error'')), [])
      | Inr formData \<Rightarrow>
     (let splitterType = string_or (splitterType_field formData) (js ''recursive'');
          chunkSize = chunkSize_of (chunkSize_field formData);
          chunkOverlap = chunkOverlap_of (chunkOverlap_field formData);
          pdfParser = string_or (pdfParser_field formData) (js ''pdf-parse'')
      in
      if length (files formData) = 0
      then (Response 400 (upload_error (js ''No files provided'')), [])
      else if falsy_string (metadata_field formData)
      then (Response 400 (upload_error (js ''Metadata is required'')), [])
      else
     (case JSON_parse e (ToString_field (metadata_field formData)) of
        Inl err \<Rightarrow> (Response 500 (upload_error (js ''Internal server error'')), [])
      | Inr md \<Rightarrow>
     (let textSplitter = make_splitter splitterType chunkSize chunkOverlap in
      case new_TextSplitter e textSplitter of
        Some err \<Rightarrow> (Response 500 (upload_error (js ''Internal server error'')), [])
      | None \<Rightarrow>
     (let st = file_loop e md textSplitter pdfParser 0 (files formData)
                 \<lparr>totalChunks = 0, documentsCount_var = 0, stored = []\<rparr>
      in (Response 200
            (upload_result True (documentsCount_var st) (totalChunks st)
               (js ''Successfully processed '' @ decimal (documentsCount_var st)
                @ js '' documents with '' @ decimal (totalChunks st) @ js '' chunks'')),
          stored st)))))))"

section \<open>The preview route (the second route handler)\<close>

text \<open>
  The state of the preview's loop over the files: \<^verbatim>\<open>allChunks\<close>, \<^verbatim>\<open>totalParseTime\<close> and
  \<^verbatim>\<open>extractedMetadata\<close>.
\<close>

record preview_state =
  allChunks :: "jsstring list"
  totalParseTime :: int
  extractedMetadata :: "object list"

record chunk_preview =
  index :: nat
  preview_content :: jsstring
  preview_length :: nat

record parsing_information =
  total_parse_time :: int
  parser_used :: jsstring
  files_metadata :: "object list"

record chunk_statistics =
  total_chunks :: nat
  avg_length :: int
  min_length :: nat
  max_length :: nat
  first_chunk :: chunk_preview
  last_chunk :: chunk_preview
  all_chunks :: "chunk_preview list"
  parsing_info :: parsing_information

datatype preview_body =
    preview_error jsstring
  | preview_result (preview_success: bool) (chunkStats: chunk_statistics)

text \<open>\<^verbatim>\<open>fileError instanceof Error ? fileError.message : 'Unknown error'\<close>\<close>

definition message_of :: "thrown \<Rightarrow> jsstring" where
  "message_of err =
     (case err of
        Error m \<Rightarrow> m
      | TypeError m \<Rightarrow> m
      | RangeError m \<Rightarrow> m
      | NonError \<Rightarrow> js ''Unknown error'')"

text \<open>The response of the preview's \<^verbatim>\<open>catch (fileError)\<close> (lines 133 to 138).\<close>

definition file_failed :: "File \<Rightarrow> thrown \<Rightarrow> preview_body response" where
  "file_failed file fileError =
     Response 400
       (preview_error (js ''Failed to process file '' @ file_name file @ js '': ''
                       @ message_of fileError))"

text \<open>
  The body of the preview's loop over the files (lines 85 to 138) for the file at
  position \<open>k\<close>: the new state, or the response the \<^verbatim>\<open>catch\<close> returns from \<^verbatim>\<open>POST\<close>.
\<close>

definition preview_file ::
  "env \<Rightarrow> TextSplitter \<Rightarrow> jsstring \<Rightarrow> nat \<Rightarrow> File \<Rightarrow> preview_state
     \<Rightarrow> preview_body response + preview_state" where
  "preview_file e textSplitter pdfParser k file st =
     (case arrayBuffer e k file of
        Inl fileError \<Rightarrow> Inl (file_failed file fileError)
      | Inr buffer \<Rightarrow>
          (case parsePDF e k buffer pdfParser (NODE_ENV e = Some (js ''development'')) of
             Inl fileError \<Rightarrow> Inl (file_failed file fileError)
           | Inr pdfResult \<Rightarrow>
               (let st1 = st\<lparr>totalParseTime :=
                                totalParseTime st + number_or (parseTime pdfResult) 0,
                              extractedMetadata := extractedMetadata st @
                                [([js ''filename'' \<mapsto> Str (file_name file)]
                                    ++ map_of (spread (pdf_metadata pdfResult)))
                                 (js ''parserUsed'' \<mapsto> Str (parserUsed pdfResult),
                                  js ''parseTime'' \<mapsto> number_value (parseTime pdfResult))]\<rparr>
                in
                if no_text (pdf_text pdfResult) then Inr st1
                else
                  (case splitText e textSplitter (pdf_text pdfResult) of
                     Inl fileError \<Rightarrow> Inl (file_failed file fileError)
                   | Inr chunks \<Rightarrow> Inr (st1\<lparr>allChunks := allChunks st1 @ chunks\<rparr>)))))"

fun preview_loop ::
  "env \<Rightarrow> TextSplitter \<Rightarrow> jsstring \<Rightarrow> nat \<Rightarrow> File list \<Rightarrow> preview_state
     \<Rightarrow> preview_body response + preview_state" where
  "preview_loop e textSplitter pdfParser k [] st = Inr st"
| "preview_loop e textSplitter pdfParser k (file # rest) st =
     (case preview_file e textSplitter pdfParser k file st of
        Inl response \<Rightarrow> Inl response
      | Inr st' \<Rightarrow> preview_loop e textSplitter pdfParser (k + 1) rest st')"

subsection \<open>The statistics (lines 148 to 178)\<close>

text \<open>
  \<^verbatim>\<open>Math.round(x)\<close> is the integer nearest to \<open>x\<close>, the larger one of two that are equally
  near. The lengths and their sum are integers that a double holds exactly (below
  \<open>2^53\<close>), and the quotient is read as the real number.
\<close>

definition Math_round :: "real \<Rightarrow> int" where
  "Math_round x = \<lfloor>x + 1 / 2\<rfloor>"

text \<open>
  \<^verbatim>\<open>Math.min(...xs)\<close> and \<^verbatim>\<open>Math.max(...xs)\<close>: the spread passes every element of the
  array as an argument of the call, so the call throws a \<^verbatim>\<open>RangeError\<close> when the array is
  longer than the engine's limit \<open>limit\<close>. They are written for at least one argument; the
  route returns before it reaches them when there is no chunk.
\<close>

fun Math_min :: "nat \<Rightarrow> nat list \<Rightarrow> thrown + nat" where
  "Math_min limit (x # xs) =
     (if limit < length (x # xs) then Inl (RangeError (js ''Maximum call stack size exceeded''))
      else Inr (fold min xs x))"

fun Math_max :: "nat \<Rightarrow> nat list \<Rightarrow> thrown + nat" where
  "Math_max limit (x # xs) =
     (if limit < length (x # xs) then Inl (RangeError (js ''Maximum call stack size exceeded''))
      else Inr (fold max xs x))"

definition chunkPreviews_of :: "jsstring list \<Rightarrow> chunk_preview list" where
  "chunkPreviews_of chunks =
     map (\<lambda>(chunk, i). \<lparr>index = i, preview_content = chunk, preview_length = length chunk\<rparr>)
         (zip chunks [0..<length chunks])"

text \<open>
  Lines 149 to 178, in the order of the source: the lengths, the count, the average, then
  the minimum and the maximum, each of which can throw, then the previews and the object.
\<close>

definition calculate_statistics ::
  "nat \<Rightarrow> jsstring list \<Rightarrow> int \<Rightarrow> jsstring \<Rightarrow> object list \<Rightarrow> thrown + chunk_statistics" where
  "calculate_statistics limit chunks parse_time pdfParser extracted =
     (let chunkLengths = map length chunks;
          totalChunks = length chunks;
          avgLength = Math_round (real (foldl (+) 0 chunkLengths) / real totalChunks)
      in
      case Math_min limit chunkLengths of
        Inl err \<Rightarrow> Inl err
      | Inr minLength \<Rightarrow>
     (case Math_max limit chunkLengths of
        Inl err \<Rightarrow> Inl err
      | Inr maxLength \<Rightarrow>
     (let chunkPreviews = chunkPreviews_of chunks
      in Inr \<lparr>total_chunks = totalChunks,
              avg_length = avgLength,
              min_length = minLength,
              max_length = maxLength,
              first_chunk = chunkPreviews ! 0,
              last_chunk = chunkPreviews ! (length chunkPreviews - 1),
              all_chunks = chunkPreviews,
              parsing_info = \<lparr>total_parse_time = parse_time, parser_used = pdfParser,
                              files_metadata = extracted\<rparr>\<rparr>)))"

text \<open>
  \<^verbatim>\<open>POST\<close> of the preview route. \<^verbatim>\<open>metadata\<close> is parsed when the field is there and not
  empty, and is \<^verbatim>\<open>{}\<close> otherwise; nothing reads it afterwards. What the statistics throw
  goes to the outer \<^verbatim>\<open>catch\<close>, as what \<^verbatim>\<open>JSON.parse\<close> and the splitter's constructor throw.
\<close>

definition POST_preview :: "env \<Rightarrow> thrown + FormData \<Rightarrow> preview_body response" where
  "POST_preview e request =
     (case request of
        Inl err \<Rightarrow>
          Response 500 (preview_error (js ''Internal server error: '' @ message_of err))
      | Inr formData \<Rightarrow>
     (let splitterType = string_or (splitterType_field formData) (js ''recursive'');
          chunkSize = chunkSize_of (chunkSize_field formData);
          chunkOverlap = chunkOverlap_of (chunkOverlap_field formData);
          pdfParser = string_or (pdfParser_field formData) (js ''pdf-parse'')
      in
      if length (files formData) = 0
      then Response 400 (preview_error (js ''No files provided''))
      else
     (case (if falsy_string (metadata_field formData) then Inr (Obj [])
            else JSON_parse e (ToString_field (metadata_field formData))) of
        Inl err \<Rightarrow>
          Response 500 (preview_error (js ''Internal server error: '' @ message_of err))
      | Inr md \<Rightarrow>
     (let textSplitter = make_splitter splitterType chunkSize chunkOverlap in
      case new_TextSplitter e textSplitter of
        Some err \<Rightarrow>
          Response 500 (preview_error (js ''Internal server error: '' @ message_of err))
      | None \<Rightarrow>
     (case preview_loop e textSplitter pdfParser 0 (files formData)
             \<lparr>allChunks = [], totalParseTime = 0, extractedMetadata = []\<rparr> of
        Inl response \<Rightarrow> response
      | Inr st \<Rightarrow>
          if length (allChunks st) = 0
          then Response 400 (preview_error (js ''No chunks could be generated from the files''))
          else
            (case calculate_statistics (max_arguments e) (allChunks st) (totalParseTime st)
                    pdfParser (extractedMetadata st) of
               Inl err \<Rightarrow>
                 Response 500
                   (preview_error (js ''Internal server error: '' @ message_of err))
             | Inr stats \<Rightarrow> Response 200 (preview_result True stats)))))))"

section \<open>Notions the properties of the routes are stated with\<close>

text \<open>The splitter and the parser name both routes compute from the form.\<close>

definition textSplitter_of :: "FormData \<Rightarrow> TextSplitter" where
  "textSplitter_of formData =
     make_splitter (string_or (splitterType_field formData) (js ''recursive''))
       (chunkSize_of (chunkSize_field formData))
       (chunkOverlap_of (chunkOverlap_field formData))"

definition pdfParser_of :: "FormData \<Rightarrow> jsstring" where
  "pdfParser_of formData = string_or (pdfParser_field formData) (js ''pdf-parse'')"

text \<open>
  What becomes of the file at position \<open>k\<close> before any chunk is embedded: one of the calls
  \<^verbatim>\<open>arrayBuffer\<close>, \<^verbatim>\<open>parsePDF\<close> and \<^verbatim>\<open>splitText\<close> throws (\<open>Inl\<close>), or the file has no text or
  no chunk (\<open>Inr None\<close>), or it yields its parse result and its chunks.
\<close>

definition file_outcome ::
  "env \<Rightarrow> TextSplitter \<Rightarrow> jsstring \<Rightarrow> nat \<Rightarrow> File
     \<Rightarrow> thrown + (PDFParseResult \<times> jsstring list) option" where
  "file_outcome e textSplitter pdfParser k file =
     (case arrayBuffer e k file of
        Inl err \<Rightarrow> Inl err
      | Inr buffer \<Rightarrow>
          (case parsePDF e k buffer pdfParser (NODE_ENV e = Some (js ''development'')) of
             Inl err \<Rightarrow> Inl err
           | Inr pdfResult \<Rightarrow>
               if no_text (pdf_text pdfResult) then Inr None
               else
                 (case splitText e textSplitter (pdf_text pdfResult) of
                    Inl err \<Rightarrow> Inl err
                  | Inr chunks \<Rightarrow>
                      if chunks = [] then Inr None else Inr (Some (pdfResult, chunks)))))"

text \<open>
  The row that chunk \<open>i\<close> of file \<open>k\<close> leaves in the table: none when something is thrown
  or the insert returns an error.
\<close>

definition stored_row ::
  "env \<Rightarrow> jsval \<Rightarrow> nat \<Rightarrow> File \<Rightarrow> PDFParseResult \<Rightarrow> jsstring list \<Rightarrow> nat
     \<Rightarrow> documents_enhanced option" where
  "stored_row e md k file pdfResult chunks i =
     (case embed_and_insert e md k file pdfResult chunks i of
        Inr (None, row) \<Rightarrow> Some row
      | _ \<Rightarrow> None)"

definition file_rows ::
  "env \<Rightarrow> jsval \<Rightarrow> TextSplitter \<Rightarrow> jsstring \<Rightarrow> nat \<Rightarrow> File \<Rightarrow> documents_enhanced list" where
  "file_rows e md textSplitter pdfParser k file =
     (case file_outcome e textSplitter pdfParser k file of
        Inr (Some (pdfResult, chunks)) \<Rightarrow>
          List.map_filter (stored_row e md k file pdfResult chunks) [0..<length chunks]
      | _ \<Rightarrow> [])"

text \<open>
  A request the upload route takes up: the client is there, the form has a file and a
  metadata field that parses to \<open>md\<close>, and the splitter can be constructed.
\<close>

definition accepted :: "env \<Rightarrow> FormData \<Rightarrow> jsval \<Rightarrow> bool" where
  "accepted e formData md \<longleftrightarrow>
     createServerSupabaseClient e = None
     \<and> files formData \<noteq> []
     \<and> \<not> falsy_string (metadata_field formData)
     \<and> JSON_parse e (ToString_field (metadata_field formData)) = Inr md
     \<and> new_TextSplitter e (textSplitter_of formData) = None"

text \<open>The message of the upload's response.\<close>

definition upload_message :: "nat \<Rightarrow> nat \<Rightarrow> jsstring" where
  "upload_message documents chunks =
     js ''Successfully processed '' @ decimal documents @ js '' documents with ''
     @ decimal chunks @ js '' chunks''"

text \<open>The file at position \<open>k\<close> gets as far as its chunk loop.\<close>

definition reaches_chunks :: "env \<Rightarrow> TextSplitter \<Rightarrow> jsstring \<Rightarrow> nat \<Rightarrow> File \<Rightarrow> bool" where
  "reaches_chunks e textSplitter pdfParser k file =
     (case file_outcome e textSplitter pdfParser k file of
        Inr (Some x) \<Rightarrow> True
      | _ \<Rightarrow> False)"

text \<open>
  The rows all files of a request leave in the table, file after file, and the number of
  files that get as far as their chunk loop.
\<close>

definition upload_rows :: "env \<Rightarrow> jsval \<Rightarrow> FormData \<Rightarrow> documents_enhanced list" where
  "upload_rows e md formData =
     concat (map (\<lambda>k. file_rows e md (textSplitter_of formData) (pdfParser_of formData) k
                         (files formData ! k))
                 [0..<length (files formData)])"

definition upload_documents :: "env \<Rightarrow> FormData \<Rightarrow> nat" where
  "upload_documents e formData =
     length (filter (\<lambda>k. reaches_chunks e (textSplitter_of formData) (pdfParser_of formData) k
                            (files formData ! k))
                    [0..<length (files formData)])"

text \<open>
  The chunks of the file at position \<open>k\<close> (none when it has no text), and the chunks of
  all files of a request, file after file: what the preview route collects in
  \<^verbatim>\<open>allChunks\<close> when no file fails.
\<close>

definition file_chunks :: "env \<Rightarrow> TextSplitter \<Rightarrow> jsstring \<Rightarrow> nat \<Rightarrow> File \<Rightarrow> jsstring list" where
  "file_chunks e textSplitter pdfParser k file =
     (case file_outcome e textSplitter pdfParser k file of
        Inr (Some (pdfResult, chunks)) \<Rightarrow> chunks
      | _ \<Rightarrow> [])"

definition request_chunks :: "env \<Rightarrow> FormData \<Rightarrow> jsstring list" where
  "request_chunks e formData =
     concat (map (\<lambda>k. file_chunks e (textSplitter_of formData) (pdfParser_of formData) k
                         (files formData ! k))
                 [0..<length (files formData)])"

text \<open>
  A request the preview route takes up: the form has a file, its metadata field is absent
  or empty or parses, and the splitter can be constructed.
\<close>

definition preview_accepted :: "env \<Rightarrow> FormData \<Rightarrow> bool" where
  "preview_accepted e formData \<longleftrightarrow>
     files formData \<noteq> []
     \<and> (falsy_string (metadata_field formData)
         \<or> (\<exists>md. JSON_parse e (ToString_field (metadata_field formData)) = Inr md))
     \<and> new_TextSplitter e (textSplitter_of formData) = None"

section \<open>Sample services and requests\<close>

text \<open>
  Concrete services to run the routes on: every file parses to the same text unless
  \<open>bad_file\<close> holds of its position, in which case \<^verbatim>\<open>parsePDF\<close> throws; every text splits
  into the same ten chunks; the embedding call throws where \<open>bad_chunk\<close> holds of the
  positions of file and chunk; every insert succeeds; a call takes up to 120000 arguments.
\<close>

definition sample_chunks :: "jsstring list" where
  "sample_chunks =
     [js ''c1'', js ''c2'', js ''c3'', js ''c4'', js ''c5'',
      js ''c6'', js ''c7'', js ''c8'', js ''c9'', js ''c10'']"

definition sample_result :: PDFParseResult where
  "sample_result =
     \<lparr>pdf_text = js ''some text'', pdf_metadata = Obj [(js ''pages'', Num 1)],
      parseTime = Some 12, parserUsed = js ''pdf-parse''\<rparr>"

definition sample_env :: "(nat \<Rightarrow> bool) \<Rightarrow> (nat \<Rightarrow> nat \<Rightarrow> bool) \<Rightarrow> env" where
  "sample_env bad_file bad_chunk =
     \<lparr>createServerSupabaseClient = None,
      JSON_parse = (\<lambda>s. if s = js ''{}'' then Inr (Obj [])
                         else Inl (Error (js ''Unexpected token''))),
      ToString = (\<lambda>v. case v of Str s \<Rightarrow> Inr s
                          | _ \<Rightarrow> Inl (TypeError (js ''Cannot convert object to primitive value''))),
      NODE_ENV = None,
      new_TextSplitter = (\<lambda>textSplitter. None),
      splitText = (\<lambda>textSplitter text. Inr sample_chunks),
      arrayBuffer = (\<lambda>k file. Inr []),
      parsePDF = (\<lambda>k buffer parser fallbackToMock.
                    if bad_file k then Inl (Error (js ''Invalid PDF'')) else Inr sample_result),
      generateEmbedding = (\<lambda>k i text.
                    if bad_chunk k i then Inl (Error (js ''rate limit'')) else Inr [1 / 2]),
      insert_row = (\<lambda>k i row. Inr None),
      max_arguments = 120000\<rparr>"

definition sample_file :: "string \<Rightarrow> File" where
  "sample_file n = \<lparr>file_name = js n, file_size = 2048\<rparr>"

definition sample_form :: "File list \<Rightarrow> jsstring option \<Rightarrow> FormData" where
  "sample_form fs metadataStr =
     \<lparr>files = fs, metadata_field = metadataStr, splitterType_field = None,
      chunkSize_field = None, chunkOverlap_field = None, pdfParser_field = None\<rparr>"


section \<open>Theorems\<close>

text \<open>Two literals are the same string only when they are the same text.\<close>

lemma of_char_less_65536: "(of_char c :: nat) < 65536"
proof -
  have "(of_char c :: nat) mod 256 < 256" by simp
  then have "(of_char c :: nat) < 256" by (simp only: of_char_mod_256)
  then show ?thesis by linarith
qed

lemma js_inject [simp]: "js a = js b \<longleftrightarrow> a = b"
proof -
  have "inj (\<lambda>c. (word_of_nat (of_char c :: nat) :: 16 word))"
  proof (rule injI)
    fix x y :: char
    assume "(word_of_nat (of_char x :: nat) :: 16 word) = word_of_nat (of_char y)"
    then have "unat (word_of_nat (of_char x :: nat) :: 16 word)
        = unat (word_of_nat (of_char y :: nat) :: 16 word)"
      by simp
    then have "(of_char x :: nat) = of_char y"
      using of_char_less_65536 [of x] of_char_less_65536 [of y]
      by (simp add: unsigned_of_nat take_bit_nat_eq_self)
    then show "x = y" by simp
  qed
  then show ?thesis unfolding js_def by (simp add: inj_map_eq_map)
qed

lemma js_eq_Nil [simp]: "js a = [] \<longleftrightarrow> a = []"
  by (simp add: js_def)

lemma number_or_nonzero: "d \<noteq> 0 \<Longrightarrow> number_or x d \<noteq> 0"
  by (simp add: number_or_def split: option.split)

subsection \<open>Numeric form fields\<close>

text \<open>A string with no decimal digit in it parses to NaN: with no \<^verbatim>\<open>0\<close> there is no
  \<^verbatim>\<open>0x\<close> prefix either.\<close>

lemma parseInt_no_decimal_digit:
  assumes "\<forall>c\<in>set s. \<not> (0x30 \<le> c \<and> c \<le> 0x39)"
  shows "parseInt s = None"
proof -
  define S where "S = trimStart s"
  define S1 where "S1 = (if S \<noteq> [] \<and> (hd S = 0x2B \<or> hd S = 0x2D) then tl S else S)"
  have "set S \<subseteq> set s"
    unfolding S_def trimStart_def using set_dropWhileD by fastforce
  moreover have "set S1 \<subseteq> set S"
    unfolding S1_def by (cases S) auto
  ultimately have sub: "set S1 \<subseteq> set s" by blast
  have nohex: "\<not> (length S1 \<ge> 2 \<and> (take 2 S1 = js ''0x'' \<or> take 2 S1 = js ''0X''))"
  proof
    assume h: "length S1 \<ge> 2 \<and> (take 2 S1 = js ''0x'' \<or> take 2 S1 = js ''0X'')"
    then have "hd S1 = 0x30" by (cases S1) (auto simp: js_def)
    moreover from h have "S1 \<noteq> []" by auto
    ultimately have "(0x30 :: 16 word) \<in> set s" using sub by (metis hd_in_set subsetD)
    with assms show False by auto
  qed
  have "takeWhile (isRadixDigit 10) S1 = []"
  proof (cases S1)
    case Nil then show ?thesis by simp
  next
    case (Cons c cs)
    then have "c \<in> set s" using sub by auto
    with assms have nd: "\<not> (0x30 \<le> c \<and> c \<le> 0x39)" by blast
    have "\<not> isRadixDigit 10 c"
      using nd by (auto simp: isRadixDigit_def digitValue_def split: option.splits if_splits)
    with Cons show ?thesis by simp
  qed
  moreover from nohex
  have "(length S1 \<ge> 2 \<and> (take 2 S1 = js ''0x'' \<or> take 2 S1 = js ''0X'')) = False"
    by blast
  ultimately show ?thesis
    unfolding parseInt_def Let_def S_def[symmetric] S1_def[symmetric]
    by (simp only: if_False refl if_True)
qed

text \<open>
  C9. In both routes \<^verbatim>\<open>chunkSize\<close> and \<^verbatim>\<open>chunkOverlap\<close> are computed by \<open>chunkSize_of\<close> and
  \<open>chunkOverlap_of\<close> from the form field. A field whose value parses to NaN or to 0 gives
  the default, 5000 and 500; so do an absent field, an empty one and one with no decimal
  digit in it; and neither value is ever 0.
\<close>

theorem chunk_params_default:
  "(parseInt (ToString_field field) = None \<or> parseInt (ToString_field field) = Some 0
      \<longrightarrow> chunkSize_of field = 5000 \<and> chunkOverlap_of field = 500)
   \<and> chunkSize_of None = 5000 \<and> chunkOverlap_of None = 500
   \<and> chunkSize_of (Some []) = 5000 \<and> chunkOverlap_of (Some []) = 500
   \<and> ((\<forall>c\<in>set s. \<not> (0x30 \<le> c \<and> c \<le> 0x39))
        \<longrightarrow> chunkSize_of (Some s) = 5000 \<and> chunkOverlap_of (Some s) = 500)
   \<and> chunkSize_of field \<noteq> 0 \<and> chunkOverlap_of field \<noteq> 0"
proof -
  have absent: "parseInt (ToString_field None) = None"
    by (rule parseInt_no_decimal_digit) (simp add: ToString_field_def js_def)
  have empty: "parseInt (ToString_field (Some [])) = None"
    by (rule parseInt_no_decimal_digit) (simp add: ToString_field_def)
  have nonnum: "(\<forall>c\<in>set s. \<not> (0x30 \<le> c \<and> c \<le> 0x39)) \<longrightarrow> parseInt (ToString_field (Some s)) = None"
    by (simp add: ToString_field_def parseInt_no_decimal_digit)
  show ?thesis
    using absent empty nonnum
    by (auto simp: chunkSize_of_def chunkOverlap_of_def number_or_def split: option.splits)
qed

theorem chunk_params_default_witness:
  "parseInt (ToString_field (Some (js ''0''))) = Some 0
   \<and> chunkSize_of (Some (js ''0'')) = 5000 \<and> chunkOverlap_of (Some (js ''0'')) = 500
   \<and> chunkSize_of (Some (js ''abc'')) = 5000 \<and> chunkOverlap_of (Some (js ''abc'')) = 500"
proof -
  have z: "parseInt (ToString_field (Some (js ''0''))) = Some 0"
    by code_simp
  have nd: "\<forall>c\<in>set (js ''abc''). \<not> (0x30 \<le> c \<and> c \<le> 0x39)"
    by (simp add: js_def)
  from z nd chunk_params_default [of "Some (js ''0'')" "js ''abc''"]
  show ?thesis by blast
qed

subsection \<open>The parser factory\<close>

text \<open>\<^verbatim>\<open>meets\<close> is true when the parser has every feature an entry requires as true.\<close>

lemma meets_iff:
  "meets r p \<longleftrightarrow> (\<forall>f. (f, Some True) \<in> set r \<longrightarrow> features_get (features p) f)"
  unfolding meets_def list_all_iff by (auto split: if_splits)

lemma first_meeting_found:
  "\<exists>p\<in>set ps. meets r p \<Longrightarrow>
   \<exists>i<length ps. first_meeting r ps = name (ps ! i) \<and> meets r (ps ! i)
      \<and> (\<forall>j<i. \<not> meets r (ps ! j))"
proof (induction ps)
  case Nil
  then show ?case by simp
next
  case (Cons p ps)
  show ?case
  proof (cases "meets r p")
    case True
    then have "first_meeting r (p # ps) = name ((p # ps) ! 0) \<and> meets r ((p # ps) ! 0)
      \<and> (\<forall>j<0. \<not> meets r ((p # ps) ! j))" by simp
    then show ?thesis by blast
  next
    case False
    with Cons.prems have "\<exists>q\<in>set ps. meets r q" by auto
    from Cons.IH [OF this] obtain i where i: "i < length ps"
      "first_meeting r ps = name (ps ! i)" "meets r (ps ! i)" "\<forall>j<i. \<not> meets r (ps ! j)"
      by blast
    have "\<forall>j<Suc i. \<not> meets r ((p # ps) ! j)"
      using False i(4) by (auto simp: less_Suc_eq_0_disj)
    with i False have "Suc i < length (p # ps) \<and> first_meeting r (p # ps) = name ((p # ps) ! Suc i)
      \<and> meets r ((p # ps) ! Suc i) \<and> (\<forall>j<Suc i. \<not> meets r ((p # ps) ! j))"
      by simp
    then show ?thesis by blast
  qed
qed

lemma first_meeting_default:
  "\<forall>p\<in>set ps. \<not> meets r p \<Longrightarrow> first_meeting r ps = js ''pdf-parse''"
  by (induction ps) auto

text \<open>
  C8. \<^verbatim>\<open>getBestParser\<close> with no requirements returns \<^verbatim>\<open>'pdf-parse'\<close>. With requirements,
  when some registered parser (the parsers are those of the registry, in its order) has
  every feature required as true, it returns the name of the first such parser; when none
  has, it returns \<^verbatim>\<open>'pdf-parse'\<close>.
\<close>

theorem getBestParser_first_match:
  "getBestParser None = js ''pdf-parse''
   \<and> map name getAvailableParsers = Object_keys AVAILABLE_PARSERS
   \<and> ((\<exists>p\<in>set getAvailableParsers.
          \<forall>f. (f, Some True) \<in> set r \<longrightarrow> features_get (features p) f)
        \<longrightarrow> (\<exists>i<length getAvailableParsers.
               getBestParser (Some r) = name (getAvailableParsers ! i)
               \<and> (\<forall>f. (f, Some True) \<in> set r
                      \<longrightarrow> features_get (features (getAvailableParsers ! i)) f)
               \<and> (\<forall>j<i. \<not> (\<forall>f. (f, Some True) \<in> set r
                      \<longrightarrow> features_get (features (getAvailableParsers ! j)) f))))
   \<and> ((\<forall>p\<in>set getAvailableParsers.
          \<not> (\<forall>f. (f, Some True) \<in> set r \<longrightarrow> features_get (features p) f))
        \<longrightarrow> getBestParser (Some r) = js ''pdf-parse'')"
proof -
  have a: "getBestParser None = js ''pdf-parse''"
    by (simp add: getBestParser_def)
  have b: "map name getAvailableParsers = Object_keys AVAILABLE_PARSERS"
    by (simp add: getAvailableParsers_def AVAILABLE_PARSERS_def Object_keys_def)
  have c: "(\<exists>p\<in>set getAvailableParsers. meets r p)
        \<longrightarrow> (\<exists>i<length getAvailableParsers.
               getBestParser (Some r) = name (getAvailableParsers ! i)
               \<and> meets r (getAvailableParsers ! i)
               \<and> (\<forall>j<i. \<not> meets r (getAvailableParsers ! j)))"
    using first_meeting_found [of getAvailableParsers r] by (simp add: getBestParser_def)
  have d: "(\<forall>p\<in>set getAvailableParsers. \<not> meets r p)
        \<longrightarrow> getBestParser (Some r) = js ''pdf-parse''"
    using first_meeting_default [of getAvailableParsers r] by (simp add: getBestParser_def)
  from a b c d show ?thesis
    unfolding meets_iff by blast
qed

theorem getBestParser_first_match_witness:
  "getBestParser (Some [(ocrCapability_key, Some True), (extractText_key, Some True)])
     = js ''pdf-parse''
   \<and> getBestParser (Some [(handleEncrypted_key, Some True), (handleImages_key, Some False),
                          (extractText_key, None)])
     = js ''mock''"
proof -
  let ?r = "[(ocrCapability_key, Some True), (extractText_key, Some True)]"
  have "\<forall>p\<in>set getAvailableParsers.
          \<not> (\<forall>f. (f, Some True) \<in> set ?r \<longrightarrow> features_get (features p) f)"
    by (auto simp: getAvailableParsers_def AVAILABLE_PARSERS_def)
  with getBestParser_first_match [of ?r]
  have "getBestParser (Some ?r) = js ''pdf-parse''" by blast
  moreover have "getBestParser (Some [(handleEncrypted_key, Some True),
      (handleImages_key, Some False), (extractText_key, None)]) = js ''mock''"
    by (simp add: getBestParser_def getAvailableParsers_def AVAILABLE_PARSERS_def meets_def)
  ultimately show ?thesis by blast
qed

text \<open>
  \<^verbatim>\<open>create\<close> on the registry's names, and on a name that neither the registry nor
  \<^verbatim>\<open>Object.prototype\<close> has: the error's message lists the registered names.
\<close>

lemma create_registered:
  "parserType \<in> set (Object_keys AVAILABLE_PARSERS) \<Longrightarrow>
   \<exists>c. create (Some parserType) = Inr (parser_instance c) \<and> name_of c = parserType"
  by (auto simp: create_def registry_get_def AVAILABLE_PARSERS_def Object_keys_def)

lemma create_default: "create None = Inr (parser_instance PDFParseParser)"
  by (simp add: create_def registry_get_def AVAILABLE_PARSERS_def)

lemma create_unregistered:
  assumes "parserType \<notin> set (Object_keys AVAILABLE_PARSERS)"
    and "parserType \<noteq> js ''constructor''"
    and "parserType \<notin> set Object_prototype_methods"
  shows "create (Some parserType) =
     Inl (Error (js ''Parser '' @ [0x27] @ parserType @ [0x27]
                 @ js '' not found. Available parsers: '' @ js ''pdf-parse, mock''))"
proof -
  from assms(1) have "map_of AVAILABLE_PARSERS parserType = None"
    by (simp add: Object_keys_def map_of_eq_None_iff)
  with assms(2,3) have "registry_get parserType = undefined_value"
    by (simp add: registry_get_def)
  moreover have "join (js '', '') (Object_keys AVAILABLE_PARSERS) = js ''pdf-parse, mock''"
    by (simp add: join_def Object_keys_def AVAILABLE_PARSERS_def js_def)
  ultimately show ?thesis by (simp add: create_def)
qed

text \<open>
  C7 says that \<^verbatim>\<open>create\<close> fails, with a message that lists the registered parsers, for
  every name that is not a key of the registry. The name \<^verbatim>\<open>constructor\<close> is not a key of
  the registry, and \<^verbatim>\<open>create\<close> does not fail on it: the property read finds
  \<^verbatim>\<open>Object.prototype.constructor\<close>, the guard \<^verbatim>\<open>!ParserClass\<close> is false, and
  \<^verbatim>\<open>new ParserClass()\<close> returns an empty object that is no parser.
\<close>

theorem create_constructor_returns:
  "js ''constructor'' \<notin> set (Object_keys AVAILABLE_PARSERS)
   \<and> create (Some (js ''constructor'')) = Inr plain_object"
  by (simp add: create_def registry_get_def AVAILABLE_PARSERS_def Object_keys_def)

subsection \<open>The feedback similarity function\<close>

text \<open>
  When the unqualified name is read as the parameter (\<^verbatim>\<open>use_variable\<close>), the function does
  what its text is meant to do: every row it returns comes from a row of the table whose
  similarity to the input vector is above the threshold and whose comment is not NULL
  and not empty after \<^verbatim>\<open>TRIM\<close>; the rows are in order of falling similarity; and there
  are no more of them than the count asks for.
\<close>

lemma where_clause_iff:
  "where_clause cd ref param t row \<longleftrightarrow>
     (\<exists>d th c. distance cd ref param row = Some d \<and> t = Some th \<and> 1 - d > th
        \<and> comment row = Some c \<and> TRIM c \<noteq> [])"
  by (auto simp: where_clause_def split: option.splits)

lemma sorted_map_select:
  "sorted (map (order_key cd ref param) rows) \<Longrightarrow>
   \<forall>row\<in>set rows. distance cd ref param row \<noteq> None \<Longrightarrow>
   sorted_wrt (\<lambda>a b. the (similarity a) \<ge> the (similarity b))
     (map (select_list cd ref param) rows)"
proof (induction rows)
  case Nil
  then show ?case by simp
next
  case (Cons r rs)
  from Cons.prems obtain d where d: "distance cd ref param r = Some d" by auto
  have "\<forall>x\<in>set rs. the (similarity (select_list cd ref param x))
          \<le> the (similarity (select_list cd ref param r))"
  proof
    fix x assume x: "x \<in> set rs"
    with Cons.prems obtain dx where dx: "distance cd ref param x = Some dx" by auto
    from Cons.prems(1) x have "order_key cd ref param r \<le> order_key cd ref param x"
      by simp
    with d dx have "d \<le> dx" by (simp add: order_key_def)
    with d dx show "the (similarity (select_list cd ref param x))
          \<le> the (similarity (select_list cd ref param r))"
      by (simp add: select_list_def)
  qed
  with Cons show ?case by simp
qed

lemma match_feedback_use_variable:
  assumes "match_feedback_by_embedding vc_use_variable cd tbl param t n = Inr rows"
  shows "(\<forall>m\<in>set rows. \<exists>row\<in>set tbl. \<exists>d th c.
            m = select_list cd plpgsql_variable param row
            \<and> query_embedding row \<noteq> None \<and> param \<noteq> None
            \<and> d = cd (the (query_embedding row)) (the param)
            \<and> similarity m = Some (1 - d) \<and> t = Some th \<and> 1 - d > th
            \<and> comment row = Some c \<and> TRIM c \<noteq> [])"
    and "sorted_wrt (\<lambda>a b. the (similarity a) \<ge> the (similarity b)) rows"
    and "\<And>k. n = Some k \<Longrightarrow> 0 \<le> k \<and> int (length rows) \<le> k"
proof -
  define kept where "kept = filter (where_clause cd plpgsql_variable param t) tbl"
  define ordered where "ordered = sort_key (order_key cd plpgsql_variable param) kept"
  define selected where "selected = map (select_list cd plpgsql_variable param) ordered"
  have rows: "rows = (case n of None \<Rightarrow> selected | Some k \<Rightarrow> take (nat k) selected)"
    and nn: "\<And>k. n = Some k \<Longrightarrow> 0 \<le> k"
    using assms
    by (auto simp: match_feedback_by_embedding_def resolve_unqualified_def Let_def
        kept_def ordered_def selected_def split: option.splits if_splits)
  have set_ordered: "set ordered = set kept" by (simp add: ordered_def)
  have kept_d: "\<forall>row\<in>set ordered. distance cd plpgsql_variable param row \<noteq> None"
    unfolding set_ordered kept_def by (auto simp: where_clause_iff)
  have "sorted (map (order_key cd plpgsql_variable param) ordered)"
    by (simp add: ordered_def)
  from sorted_map_select [OF this kept_d]
  have sel_sorted: "sorted_wrt (\<lambda>a b. the (similarity a) \<ge> the (similarity b)) selected"
    by (simp add: selected_def)
  have sub: "set rows \<subseteq> set selected"
    unfolding rows by (auto split: option.splits dest: in_set_takeD)
  show "sorted_wrt (\<lambda>a b. the (similarity a) \<ge> the (similarity b)) rows"
    unfolding rows using sel_sorted by (auto split: option.splits intro: sorted_wrt_take)
  show "\<And>k. n = Some k \<Longrightarrow> 0 \<le> k \<and> int (length rows) \<le> k"
    using nn unfolding rows by auto
  show "\<forall>m\<in>set rows. \<exists>row\<in>set tbl. \<exists>d th c.
            m = select_list cd plpgsql_variable param row
            \<and> query_embedding row \<noteq> None \<and> param \<noteq> None
            \<and> d = cd (the (query_embedding row)) (the param)
            \<and> similarity m = Some (1 - d) \<and> t = Some th \<and> 1 - d > th
            \<and> comment row = Some c \<and> TRIM c \<noteq> []"
  proof
    fix m assume "m \<in> set rows"
    with sub have "m \<in> set selected" by blast
    then obtain row where row: "row \<in> set kept" "m = select_list cd plpgsql_variable param row"
      unfolding selected_def set_map set_ordered[symmetric] by auto
    from row(1) have intbl: "row \<in> set tbl"
      and w: "where_clause cd plpgsql_variable param t row"
      by (auto simp: kept_def)
    from w obtain d th c where dtc: "distance cd plpgsql_variable param row = Some d"
      "t = Some th" "1 - d > th" "comment row = Some c" "TRIM c \<noteq> []"
      unfolding where_clause_iff by blast
    from dtc(1) have "query_embedding row \<noteq> None \<and> param \<noteq> None
        \<and> d = cd (the (query_embedding row)) (the param)"
      by (auto simp: distance_def split: option.splits)
    with dtc row(2) intbl show "\<exists>row\<in>set tbl. \<exists>d th c.
            m = select_list cd plpgsql_variable param row
            \<and> query_embedding row \<noteq> None \<and> param \<noteq> None
            \<and> d = cd (the (query_embedding row)) (the param)
            \<and> similarity m = Some (1 - d) \<and> t = Some th \<and> 1 - d > th
            \<and> comment row = Some c \<and> TRIM c \<noteq> []"
      by (auto simp: select_list_def)
  qed
qed

text \<open>Under the default setting every call ends with the error, whatever its arguments.\<close>

lemma match_feedback_default_fails:
  "match_feedback_by_embedding default_variable_conflict cd tbl param t n
     = Inl ambiguous_column_reference"
  by (simp add: match_feedback_by_embedding_def default_variable_conflict_def
      resolve_unqualified_def)

text \<open>
  C6 says that the function returns the rows whose cosine similarity to the input vector
  is above the threshold and whose comment is not empty, nearest first and no more than
  the count. As the script creates it, the function returns no row at all: its parameter
  \<^verbatim>\<open>query_embedding\<close> has the name of a column of \<^verbatim>\<open>feedback\<close>, and under PostgreSQL's
  default \<^verbatim>\<open>plpgsql.variable_conflict = error\<close> the call stops with
  \<^verbatim>\<open>column reference "query_embedding" is ambiguous\<close>. Here the table holds one row with
  the comment \<^verbatim>\<open>ok\<close> whose embedding is the input vector (similarity 1), the threshold
  is 0.8 and the count 5: the call fails, where reading the name as the parameter returns
  the row.
\<close>

theorem match_feedback_ambiguous:
  "match_feedback_by_embedding default_variable_conflict (\<lambda>a b. if a = b then 0 else 1)
     [\<lparr>id_col = 1, user_query = [], ai_response = [], feedback_type = [],
       chat_id = None, rating = None, comment = Some [111, 107],
       query_embedding = Some (7::nat), created_at = 0\<rparr>]
     (Some 7) (Some (4 / 5)) (Some 5)
   = Inl ambiguous_column_reference
   \<and> match_feedback_by_embedding vc_use_variable (\<lambda>a b. if a = b then 0 else 1)
     [\<lparr>id_col = 1, user_query = [], ai_response = [], feedback_type = [],
       chat_id = None, rating = None, comment = Some [111, 107],
       query_embedding = Some (7::nat), created_at = 0\<rparr>]
     (Some 7) (Some (4 / 5)) (Some 5)
   = Inr [\<lparr>m_id = 1, m_user_query = [], m_ai_response = [], m_feedback_type = [],
           m_chat_id = None, m_rating = None, m_comment = Some [111, 107],
           m_created_at = 0, similarity = Some 1\<rparr>]"
  by (simp add: match_feedback_by_embedding_def default_variable_conflict_def
      resolve_unqualified_def where_clause_def distance_def TRIM_def select_list_def)

subsection \<open>The statistics of the preview\<close>




lemma Math_min_RangeError:
  "limit < length xs \<Longrightarrow>
   Math_min limit xs = Inl (RangeError (js ''Maximum call stack size exceeded''))"
  by (cases xs) simp_all







lemma length_chunkPreviews [simp]: "length (chunkPreviews_of chunks) = length chunks"
  by (simp add: chunkPreviews_of_def)


text \<open>
  When the route has more chunks than a call takes arguments, the statistics throw, and
  the route answers with status 500.
\<close>

lemma calculate_statistics_RangeError:
  assumes "limit < length chunks"
  shows "calculate_statistics limit chunks parse_time pdfParser extracted
     = Inl (RangeError (js ''Maximum call stack size exceeded''))"
proof -
  from assms have "limit < length (map length chunks)" by simp
  from Math_min_RangeError [OF this] show ?thesis
    by (simp add: calculate_statistics_def Let_def)
qed

text \<open>
  C5 says that the statistics are computed, with the stated properties, for every
  non-empty list of chunks. They are not computed for a list longer than the engine's
  limit on the arguments of a call: \<^verbatim>\<open>Math.min(...chunkLengths)\<close> passes every length as
  an argument and throws a \<^verbatim>\<open>RangeError\<close>, whatever the limit is, for a list of one chunk
  more.
\<close>

theorem statistics_range_error:
  "replicate (Suc limit) chunk \<noteq> []
   \<and> calculate_statistics limit (replicate (Suc limit) chunk) parse_time pdfParser extracted
     = Inl (RangeError (js ''Maximum call stack size exceeded''))"
  by (simp add: calculate_statistics_RangeError)

subsection \<open>The loops of the upload route\<close>

text \<open>
  The chunk loop adds, in order, the rows of the chunks that were stored, and counts them;
  the file loop does so file after file, and counts the files that reached their chunks.
\<close>

lemma chunk_step_stored_row:
  "chunk_step e md k f pr cs i st =
     (case stored_row e md k f pr cs i of
        None \<Rightarrow> st
      | Some row \<Rightarrow> st\<lparr>totalChunks := totalChunks st + 1, stored := stored st @ [row]\<rparr>)"
  by (simp add: chunk_step_def stored_row_def split: sum.splits option.splits prod.splits)

lemma chunk_loop_upt:
  "chunk_loop e md k f pr cs i st =
     foldl (\<lambda>s j. chunk_step e md k f pr cs j s) st [i..<length cs]"
proof (induction e md k f pr cs i st rule: chunk_loop.induct)
  case (1 e md k f pr cs i st)
  show ?case
  proof (cases "i < length cs")
    case True
    then have "[i..<length cs] = i # [i + 1..<length cs]" by (simp add: upt_rec)
    with True "1.IH" show ?thesis by (simp add: chunk_loop.simps [of e md k f pr cs i st])
  next
    case False
    then show ?thesis by (simp add: chunk_loop.simps [of e md k f pr cs i st])
  qed
qed

lemma foldl_chunk_step:
  "foldl (\<lambda>s j. chunk_step e md k f pr cs j s) st idxs =
     st\<lparr>totalChunks := totalChunks st + length (List.map_filter (stored_row e md k f pr cs) idxs),
        stored := stored st @ List.map_filter (stored_row e md k f pr cs) idxs\<rparr>"
proof (induction idxs arbitrary: st)
  case Nil
  then show ?case by (simp add: List.map_filter_simps)
next
  case (Cons j idxs)
  let ?F = "\<lambda>s j. chunk_step e md k f pr cs j s"
  let ?st1 = "chunk_step e md k f pr cs j st"
  have "foldl ?F st (j # idxs) = foldl ?F ?st1 idxs" by simp
  also have "\<dots> = ?st1\<lparr>totalChunks := totalChunks ?st1
        + length (List.map_filter (stored_row e md k f pr cs) idxs),
      stored := stored ?st1 @ List.map_filter (stored_row e md k f pr cs) idxs\<rparr>"
    by (rule Cons.IH)
  also have "\<dots> = st\<lparr>totalChunks := totalChunks st
        + length (List.map_filter (stored_row e md k f pr cs) (j # idxs)),
      stored := stored st @ List.map_filter (stored_row e md k f pr cs) (j # idxs)\<rparr>"
    by (cases "stored_row e md k f pr cs j")
       (simp_all add: chunk_step_stored_row List.map_filter_simps)
  finally show ?case .
qed

lemma chunk_loop_rows:
  "chunk_loop e md k f pr cs 0 st =
     st\<lparr>totalChunks := totalChunks st
            + length (List.map_filter (stored_row e md k f pr cs) [0..<length cs]),
        stored := stored st @ List.map_filter (stored_row e md k f pr cs) [0..<length cs]\<rparr>"
  by (simp only: chunk_loop_upt foldl_chunk_step)

lemma process_file_outcome:
  "process_file e md sp pp k f st =
     (case file_outcome e sp pp k f of
        Inr (Some (pr, cs)) \<Rightarrow>
          st\<lparr>totalChunks := totalChunks st + length (file_rows e md sp pp k f),
             stored := stored st @ file_rows e md sp pp k f,
             documentsCount_var := documentsCount_var st + 1\<rparr>
      | _ \<Rightarrow> st)"
  by (auto simp: process_file_def file_outcome_def file_rows_def chunk_loop_rows Let_def
      split: sum.splits option.splits)

lemma file_rows_not_reached:
  "\<not> reaches_chunks e sp pp k f \<Longrightarrow> file_rows e md sp pp k f = []"
  by (auto simp: reaches_chunks_def file_rows_def split: sum.splits option.splits)

lemma process_file_totals:
  "process_file e md sp pp k f st =
     st\<lparr>totalChunks := totalChunks st + length (file_rows e md sp pp k f),
        stored := stored st @ file_rows e md sp pp k f,
        documentsCount_var := documentsCount_var st
           + (if reaches_chunks e sp pp k f then 1 else 0)\<rparr>"
  by (auto simp: process_file_outcome reaches_chunks_def file_rows_def
      split: sum.splits option.splits)

lemma file_loop_totals:
  "file_loop e md sp pp k fs st =
     st\<lparr>totalChunks := totalChunks st
           + length (concat (map (\<lambda>j. file_rows e md sp pp (k + j) (fs ! j)) [0..<length fs])),
        stored := stored st
           @ concat (map (\<lambda>j. file_rows e md sp pp (k + j) (fs ! j)) [0..<length fs]),
        documentsCount_var := documentsCount_var st
           + length (filter (\<lambda>j. reaches_chunks e sp pp (k + j) (fs ! j)) [0..<length fs])\<rparr>"
proof (induction fs arbitrary: k st)
  case Nil
  then show ?case by simp
next
  case (Cons f fs)
  have upt: "[0..<length (f # fs)] = 0 # map Suc [0..<length fs]"
    by (simp add: upt_conv_Cons map_Suc_upt del: upt_Suc)
  show ?case
    unfolding upt
    by (simp add: Cons.IH process_file_totals comp_def filter_map del: upt_Suc)
qed

text \<open>
  The response and the rows of a request the upload route takes up; any other request
  stores no row.
\<close>

lemma POST_upload_accepted:
  assumes "accepted e fd md"
  shows "POST_upload e (Inr fd) =
     (Response 200
        (upload_result True (upload_documents e fd) (length (upload_rows e md fd))
           (upload_message (upload_documents e fd) (length (upload_rows e md fd)))),
      upload_rows e md fd)"
proof -
  from assms have c: "createServerSupabaseClient e = None" and f: "files fd \<noteq> []"
    and m: "\<not> falsy_string (metadata_field fd)"
    and j: "JSON_parse e (ToString_field (metadata_field fd)) = Inr md"
    and s: "new_TextSplitter e (textSplitter_of fd) = None"
    by (simp_all add: accepted_def)
  from s have s': "new_TextSplitter e
      (make_splitter (string_or (splitterType_field fd) (js ''recursive''))
         (chunkSize_of (chunkSize_field fd)) (chunkOverlap_of (chunkOverlap_field fd))) = None"
    by (simp add: textSplitter_of_def)
  show ?thesis
    unfolding POST_upload_def Let_def
    by (simp add: c f m j s' file_loop_totals upload_rows_def upload_documents_def
        upload_message_def textSplitter_of_def pdfParser_of_def)
qed

lemma POST_upload_rows:
  "snd (POST_upload e request) = []
   \<or> (\<exists>fd md. request = Inr fd \<and> accepted e fd md
         \<and> snd (POST_upload e request) = upload_rows e md fd)"
proof (cases request)
  case (Inl err)
  then show ?thesis by (simp add: POST_upload_def split: option.splits)
next
  case (Inr fd)
  show ?thesis
  proof (cases "\<exists>md. accepted e fd md")
    case True
    then obtain md where "accepted e fd md" by blast
    with Inr POST_upload_accepted [OF this] show ?thesis by auto
  next
    case False
    then have "snd (POST_upload e (Inr fd)) = []"
      unfolding POST_upload_def Let_def accepted_def textSplitter_of_def
      by (auto split: option.splits sum.splits)
    with Inr show ?thesis by simp
  qed
qed

subsection \<open>Counting in the upload route\<close>






text \<open>
  The sample services: which requests they take up, what becomes of a file, and which
  chunks are stored.
\<close>

lemma sample_accepted:
  "accepted (sample_env bad_file bad_chunk) (sample_form (f # fs) (Some (js ''{}''))) (Obj [])"
  by (simp add: accepted_def sample_env_def sample_form_def falsy_string_def
      ToString_field_def)

lemma sample_file_outcome:
  "file_outcome (sample_env bad_file bad_chunk) sp pp k f =
     (if bad_file k then Inl (Error (js ''Invalid PDF''))
      else Inr (Some (sample_result, sample_chunks)))"
  by (simp add: file_outcome_def sample_env_def sample_result_def sample_chunks_def
      no_text_def trim_def isWhiteSpace_def js_def)

lemma sample_stored_row:
  "stored_row (sample_env bad_file bad_chunk) (Obj []) k f sample_result sample_chunks i =
     (if bad_chunk k i then None
      else Some (row_of (Obj []) f sample_result sample_chunks i [1 / 2]))"
  by (simp add: stored_row_def embed_and_insert_def contextEnhancedText_def get_property_def
      js_or_def sample_env_def)

lemma sample_preview_accepted:
  "preview_accepted (sample_env bad_file bad_chunk) (sample_form (f # fs) m)
     \<longleftrightarrow> m = None \<or> m = Some [] \<or> m = Some (js ''{}'')"
  by (cases m) (auto simp: preview_accepted_def sample_env_def sample_form_def falsy_string_def
      ToString_field_def)









subsection \<open>The rows the upload route stores\<close>

lemma stored_row_fields:
  assumes "stored_row e md k f pr cs i = Some r"
  shows "content r = cs ! i \<and> source r = file_name f \<and> chunk_id r = i + 1
     \<and> total_chunks_col r = length cs
     \<and> metadata r (js ''chunk_index'') = Some (Num (real i))
     \<and> metadata r (js ''total_chunks'') = Some (Num (real (length cs)))"
proof -
  from assms obtain emb where "r = row_of md f pr cs i emb"
    by (auto simp: stored_row_def embed_and_insert_def Let_def
        split: sum.splits option.splits prod.splits)
  then show ?thesis by (simp add: row_of_def)
qed

lemma file_rows_fields:
  assumes "r \<in> set (file_rows e md sp pp k f)"
  shows "\<exists>pr cs i. file_outcome e sp pp k f = Inr (Some (pr, cs)) \<and> i < length cs
     \<and> content r = cs ! i \<and> source r = file_name f \<and> chunk_id r = i + 1
     \<and> total_chunks_col r = length cs
     \<and> metadata r (js ''chunk_index'') = Some (Num (real i))
     \<and> metadata r (js ''total_chunks'') = Some (Num (real (length cs)))"
proof (cases "file_outcome e sp pp k f")
  case (Inl err)
  with assms show ?thesis by (simp add: file_rows_def)
next
  case (Inr outcome)
  show ?thesis
  proof (cases outcome)
    case None
    with Inr assms show ?thesis by (simp add: file_rows_def)
  next
    case (Some p)
    obtain pr cs where p: "p = (pr, cs)" by (cases p)
    with Inr Some have out: "file_outcome e sp pp k f = Inr (Some (pr, cs))" by simp
    with assms have "r \<in> set (List.map_filter (stored_row e md k f pr cs) [0..<length cs])"
      by (simp add: file_rows_def)
    then obtain i where "i < length cs" "stored_row e md k f pr cs i = Some r"
      by (auto simp: List.map_filter_def)
    with out stored_row_fields [of e md k f pr cs i r] show ?thesis by blast
  qed
qed

text \<open>
  C10. Every row the upload route stores comes from a file of the request that yields
  chunks \<open>cs\<close> and from a position \<open>i\<close> in them: its content is chunk \<open>i\<close>, its column
  \<^verbatim>\<open>total_chunks\<close> and its \<^verbatim>\<open>metadata.total_chunks\<close> are the number of chunks, its
  \<^verbatim>\<open>chunk_id\<close> is \<open>i + 1\<close> and its \<^verbatim>\<open>metadata.chunk_index\<close> is \<open>i\<close>; so \<^verbatim>\<open>chunk_id\<close> is
  \<^verbatim>\<open>chunk_index + 1\<close> and lies between 1 and \<^verbatim>\<open>total_chunks\<close>.
\<close>

theorem stored_rows_positions:
  assumes "r \<in> set (snd (POST_upload e request))"
  shows "\<exists>fd k pr cs i.
      request = Inr fd \<and> k < length (files fd)
      \<and> file_outcome e (textSplitter_of fd) (pdfParser_of fd) k (files fd ! k)
          = Inr (Some (pr, cs))
      \<and> i < length cs \<and> content r = cs ! i \<and> source r = file_name (files fd ! k)
      \<and> total_chunks_col r = length cs
      \<and> metadata r (js ''total_chunks'') = Some (Num (real (length cs)))
      \<and> chunk_id r = i + 1
      \<and> metadata r (js ''chunk_index'') = Some (Num (real i))
      \<and> 1 \<le> chunk_id r \<and> chunk_id r \<le> total_chunks_col r"
proof -
  from assms POST_upload_rows [of e request]
  obtain fd md where req: "request = Inr fd"
    and r: "r \<in> set (upload_rows e md fd)"
    by auto
  from r obtain k where k: "k < length (files fd)"
    and rk: "r \<in> set (file_rows e md (textSplitter_of fd) (pdfParser_of fd) k (files fd ! k))"
    by (auto simp: upload_rows_def)
  from file_rows_fields [OF rk] obtain pr cs i where
    f: "file_outcome e (textSplitter_of fd) (pdfParser_of fd) k (files fd ! k)
          = Inr (Some (pr, cs))"
    "i < length cs" "content r = cs ! i" "source r = file_name (files fd ! k)"
    "chunk_id r = i + 1" "total_chunks_col r = length cs"
    "metadata r (js ''chunk_index'') = Some (Num (real i))"
    "metadata r (js ''total_chunks'') = Some (Num (real (length cs)))"
    by blast
  from f(2,5,6) have "1 \<le> chunk_id r \<and> chunk_id r \<le> total_chunks_col r" by simp
  with req k f show ?thesis by blast
qed

lemma sample_upload_rows:
  "snd (POST_upload (sample_env (\<lambda>k. False) (\<lambda>k i. i \<noteq> 3))
          (Inr (sample_form [sample_file ''report.pdf''] (Some (js ''{}'')))))
     = [row_of (Obj []) (sample_file ''report.pdf'') sample_result sample_chunks 3 [1 / 2]]"
proof -
  let ?e = "sample_env (\<lambda>k. False) (\<lambda>k i. i \<noteq> 3)"
  let ?fd = "sample_form [sample_file ''report.pdf''] (Some (js ''{}''))"
  have fs: "files ?fd = [sample_file ''report.pdf'']" by (simp add: sample_form_def)
  have n: "length sample_chunks = 10" by (simp add: sample_chunks_def)
  then have ne: "sample_chunks \<noteq> []" by auto
  have "upload_rows ?e (Obj []) ?fd
      = [row_of (Obj []) (sample_file ''report.pdf'') sample_result sample_chunks 3 [1 / 2]]"
    by (simp add: upload_rows_def file_rows_def sample_file_outcome fs upt_rec n ne
        sample_stored_row List.map_filter_simps numeral_3_eq_3)
  with POST_upload_accepted [OF sample_accepted, of "(\<lambda>k. False)" "(\<lambda>k i. i \<noteq> 3)"
      "sample_file ''report.pdf''" "[]"]
  show ?thesis by simp
qed

theorem stored_rows_positions_witness:
  "\<exists>r. snd (POST_upload (sample_env (\<lambda>k. False) (\<lambda>k i. i \<noteq> 3))
              (Inr (sample_form [sample_file ''report.pdf''] (Some (js ''{}''))))) = [r]
       \<and> content r = js ''c4'' \<and> chunk_id r = 4 \<and> total_chunks_col r = 10
       \<and> metadata r (js ''chunk_index'') = Some (Num 3)
       \<and> metadata r (js ''total_chunks'') = Some (Num 10)
       \<and> 1 \<le> chunk_id r \<and> chunk_id r \<le> total_chunks_col r"
proof -
  let ?e = "sample_env (\<lambda>k. False) (\<lambda>k i. i \<noteq> 3)"
  let ?req = "Inr (sample_form [sample_file ''report.pdf''] (Some (js ''{}'')))"
  let ?r = "row_of (Obj []) (sample_file ''report.pdf'') sample_result sample_chunks 3 [1 / 2]"
  have rows: "snd (POST_upload ?e ?req) = [?r]" by (rule sample_upload_rows)
  then have "?r \<in> set (snd (POST_upload ?e ?req))" by simp
  from stored_rows_positions [OF this]
  have "1 \<le> chunk_id ?r \<and> chunk_id ?r \<le> total_chunks_col ?r" by blast
  moreover have "content ?r = js ''c4'' \<and> chunk_id ?r = 4 \<and> total_chunks_col ?r = 10
       \<and> metadata ?r (js ''chunk_index'') = Some (Num 3)
       \<and> metadata ?r (js ''total_chunks'') = Some (Num 10)"
    by (simp add: row_of_def sample_chunks_def)
  ultimately show ?thesis using rows by blast
qed

subsection \<open>A file that fails\<close>

text \<open>
  The preview's loop stops at the first file for which a call throws, with the response
  of its \<^verbatim>\<open>catch\<close>.
\<close>

lemma preview_file_thrown:
  "file_outcome e sp pp k f = Inl err \<Longrightarrow> preview_file e sp pp k f st = Inl (file_failed f err)"
  by (auto simp: file_outcome_def preview_file_def Let_def split: sum.splits if_splits)

lemma preview_file_not_thrown:
  "file_outcome e sp pp k f = Inr x \<Longrightarrow> \<exists>st'. preview_file e sp pp k f st = Inr st'"
  by (auto simp: file_outcome_def preview_file_def Let_def split: sum.splits if_splits)

lemma preview_loop_first_thrown:
  assumes "k' < length fs"
    and "file_outcome e sp pp (k + k') (fs ! k') = Inl err"
    and "\<forall>j<k'. \<not> isl (file_outcome e sp pp (k + j) (fs ! j))"
  shows "preview_loop e sp pp k fs st = Inl (file_failed (fs ! k') err)"
  using assms
proof (induction fs arbitrary: k k' st)
  case Nil
  then show ?case by simp
next
  case (Cons f fs)
  show ?case
  proof (cases k')
    case 0
    with Cons.prems(2) have "file_outcome e sp pp k f = Inl err" by simp
    with 0 show ?thesis by (simp add: preview_file_thrown)
  next
    case (Suc n)
    from Cons.prems(3) Suc have "\<not> isl (file_outcome e sp pp k f)" by force
    then obtain x where "file_outcome e sp pp k f = Inr x"
      by (cases "file_outcome e sp pp k f") auto
    from preview_file_not_thrown [OF this] obtain st' where
      st': "preview_file e sp pp k f st = Inr st'" by blast
    have a: "n < length fs" using Cons.prems(1) Suc by simp
    have b: "file_outcome e sp pp (k + 1 + n) (fs ! n) = Inl err"
      using Cons.prems(2) Suc by simp
    have c: "\<forall>j<n. \<not> isl (file_outcome e sp pp (k + 1 + j) (fs ! j))"
    proof (intro allI impI)
      fix j assume "j < n"
      then have "Suc j < k'" using Suc by simp
      with Cons.prems(3) have "\<not> isl (file_outcome e sp pp (k + Suc j) ((f # fs) ! Suc j))"
        by blast
      then show "\<not> isl (file_outcome e sp pp (k + 1 + j) (fs ! j))" by simp
    qed
    from Cons.IH [OF a b c] st' Suc show ?thesis by simp
  qed
qed

lemma POST_preview_thrown:
  assumes "preview_accepted e fd" and "k < length (files fd)"
    and "file_outcome e (textSplitter_of fd) (pdfParser_of fd) k (files fd ! k) = Inl err"
    and "\<forall>j<k. \<not> isl (file_outcome e (textSplitter_of fd) (pdfParser_of fd) j (files fd ! j))"
  shows "POST_preview e (Inr fd) = file_failed (files fd ! k) err"
proof -
  let ?st0 = "\<lparr>allChunks = [], totalParseTime = 0, extractedMetadata = []\<rparr>"
  have loop: "preview_loop e (textSplitter_of fd) (pdfParser_of fd) 0 (files fd) ?st0
      = Inl (file_failed (files fd ! k) err)"
    by (rule preview_loop_first_thrown) (use assms in simp_all)
  from assms(1) have f: "files fd \<noteq> []"
    and s: "new_TextSplitter e (textSplitter_of fd) = None"
    and m: "falsy_string (metadata_field fd)
         \<or> (\<exists>md. JSON_parse e (ToString_field (metadata_field fd)) = Inr md)"
    by (simp_all add: preview_accepted_def)
  from m obtain md where md: "(if falsy_string (metadata_field fd) then Inr (Obj [])
            else JSON_parse e (ToString_field (metadata_field fd))) = Inr md"
    by (cases "falsy_string (metadata_field fd)") auto
  show ?thesis
    unfolding POST_preview_def Let_def
    using f s loop md
    by (simp add: textSplitter_of_def pdfParser_of_def)
qed

lemma concat_map_skip:
  "g k = [] \<Longrightarrow> concat (map g xs) = concat (map g (filter (\<lambda>j. j \<noteq> k) xs))"
  by (induction xs) auto

lemma filter_skip:
  "\<not> P k \<Longrightarrow> filter P xs = filter P (filter (\<lambda>j. j \<noteq> k) xs)"
  by (induction xs) auto

text \<open>
  C4 says that in both routes a file that fails does not abort the files after it. In
  the preview route it does: with two files of which the first cannot be parsed, the
  response is the 400 of the \<^verbatim>\<open>catch\<close>, although the second file would have yielded its
  chunks.
\<close>

theorem preview_file_failure_counterexample:
  "POST_preview (sample_env (\<lambda>k. k = 0) (\<lambda>k i. False))
          (Inr (sample_form [sample_file ''a.pdf'', sample_file ''b.pdf''] (Some (js ''{}''))))
     = Response 400 (preview_error (js ''Failed to process file a.pdf: Invalid PDF''))
   \<and> file_outcome (sample_env (\<lambda>k. k = 0) (\<lambda>k i. False))
        (textSplitter_of (sample_form [sample_file ''a.pdf'', sample_file ''b.pdf''] (Some (js ''{}''))))
        (pdfParser_of (sample_form [sample_file ''a.pdf'', sample_file ''b.pdf''] (Some (js ''{}''))))
        1 (sample_file ''b.pdf'')
     = Inr (Some (sample_result, sample_chunks))"
proof -
  let ?e = "sample_env (\<lambda>k. k = 0) (\<lambda>k i. False)"
  let ?fd = "sample_form [sample_file ''a.pdf'', sample_file ''b.pdf''] (Some (js ''{}''))"
  have fs: "files ?fd = [sample_file ''a.pdf'', sample_file ''b.pdf'']"
    by (simp add: sample_form_def)
  have k: "0 < length (files ?fd)" by (simp add: fs)
  have out: "file_outcome ?e (textSplitter_of ?fd) (pdfParser_of ?fd) 0 (files ?fd ! 0)
      = Inl (Error (js ''Invalid PDF''))"
    by (simp add: sample_file_outcome)
  have pacc: "preview_accepted ?e ?fd" by (simp add: sample_preview_accepted)
  have msg: "file_failed (files ?fd ! 0) (Error (js ''Invalid PDF''))
      = Response 400 (preview_error (js ''Failed to process file a.pdf: Invalid PDF''))"
    by (simp add: file_failed_def message_of_def sample_form_def sample_file_def js_def)
  from POST_preview_thrown [OF pacc k out] msg
  have "POST_preview ?e (Inr ?fd)
     = Response 400 (preview_error (js ''Failed to process file a.pdf: Invalid PDF''))"
    by simp
  then show ?thesis by (simp add: sample_file_outcome)
qed

text \<open>
  C4, amended. Let a call throw for the file at position \<open>k\<close> (\<^verbatim>\<open>arrayBuffer\<close>,
  \<^verbatim>\<open>parsePDF\<close> or \<^verbatim>\<open>splitText\<close>). In the upload route the failure is caught and the loop
  goes on: the response is a success, and the rows stored and the files counted are those
  of the other files, each as if the failed file were not there. In the preview route the
  failure is caught and answered at once: when no earlier file failed, the response is
  status 400 with the message \<^verbatim>\<open>Failed to process file\<close>, the file's name and the error's
  message, and no later file is processed.
\<close>

theorem file_failure_upload_continues_preview_aborts:
  assumes "k < length (files fd)"
    and "file_outcome e (textSplitter_of fd) (pdfParser_of fd) k (files fd ! k) = Inl err"
  shows "(accepted e fd md \<longrightarrow>
            (\<exists>rows documents.
               POST_upload e (Inr fd) =
                 (Response 200
                    (upload_result True documents (length rows)
                       (upload_message documents (length rows))),
                  rows)
               \<and> rows = concat (map (\<lambda>j. file_rows e md (textSplitter_of fd) (pdfParser_of fd) j
                                            (files fd ! j))
                                 (filter (\<lambda>j. j \<noteq> k) [0..<length (files fd)]))
               \<and> documents =
                   length (filter (\<lambda>j. reaches_chunks e (textSplitter_of fd) (pdfParser_of fd) j
                                          (files fd ! j))
                             (filter (\<lambda>j. j \<noteq> k) [0..<length (files fd)]))))
         \<and> (preview_accepted e fd
              \<and> (\<forall>j<k. \<not> isl (file_outcome e (textSplitter_of fd) (pdfParser_of fd) j
                                   (files fd ! j)))
            \<longrightarrow> POST_preview e (Inr fd) = file_failed (files fd ! k) err
                \<and> status (POST_preview e (Inr fd)) = 400)"
proof -
  let ?g = "\<lambda>j. file_rows e md (textSplitter_of fd) (pdfParser_of fd) j (files fd ! j)"
  let ?P = "\<lambda>j. reaches_chunks e (textSplitter_of fd) (pdfParser_of fd) j (files fd ! j)"
  from assms(2) have nr: "\<not> ?P k" by (simp add: reaches_chunks_def)
  then have "?g k = []" by (rule file_rows_not_reached)
  then have rows: "upload_rows e md fd
      = concat (map ?g (filter (\<lambda>j. j \<noteq> k) [0..<length (files fd)]))"
    unfolding upload_rows_def by (rule concat_map_skip)
  from nr have docs: "upload_documents e fd
      = length (filter ?P (filter (\<lambda>j. j \<noteq> k) [0..<length (files fd)]))"
    unfolding upload_documents_def using filter_skip [of ?P k] by metis
  have up: "accepted e fd md \<longrightarrow>
            (\<exists>rows documents.
               POST_upload e (Inr fd) =
                 (Response 200
                    (upload_result True documents (length rows)
                       (upload_message documents (length rows))),
                  rows)
               \<and> rows = concat (map ?g (filter (\<lambda>j. j \<noteq> k) [0..<length (files fd)]))
               \<and> documents = length (filter ?P (filter (\<lambda>j. j \<noteq> k) [0..<length (files fd)])))"
  proof
    assume "accepted e fd md"
    from POST_upload_accepted [OF this] rows docs
    show "\<exists>rows documents.
               POST_upload e (Inr fd) =
                 (Response 200
                    (upload_result True documents (length rows)
                       (upload_message documents (length rows))),
                  rows)
               \<and> rows = concat (map ?g (filter (\<lambda>j. j \<noteq> k) [0..<length (files fd)]))
               \<and> documents = length (filter ?P (filter (\<lambda>j. j \<noteq> k) [0..<length (files fd)]))"
      by metis
  qed
  have pre: "preview_accepted e fd
              \<and> (\<forall>j<k. \<not> isl (file_outcome e (textSplitter_of fd) (pdfParser_of fd) j
                                   (files fd ! j)))
            \<longrightarrow> POST_preview e (Inr fd) = file_failed (files fd ! k) err
                \<and> status (POST_preview e (Inr fd)) = 400"
    using POST_preview_thrown [OF _ assms(1,2)] by (simp add: file_failed_def)
  from up pre show ?thesis by blast
qed

theorem file_failure_upload_continues_preview_aborts_witness:
  "fst (POST_upload (sample_env (\<lambda>k. k = 0) (\<lambda>k i. False))
          (Inr (sample_form [sample_file ''a.pdf'', sample_file ''b.pdf''] (Some (js ''{}'')))))
     = Response 200 (upload_result True 1 10 (upload_message 1 10))
   \<and> POST_preview (sample_env (\<lambda>k. k = 0) (\<lambda>k i. False))
          (Inr (sample_form [sample_file ''a.pdf'', sample_file ''b.pdf''] (Some (js ''{}''))))
     = Response 400 (preview_error (js ''Failed to process file a.pdf: Invalid PDF''))"
proof -
  let ?e = "sample_env (\<lambda>k. k = 0) (\<lambda>k i. False)"
  let ?fd = "sample_form [sample_file ''a.pdf'', sample_file ''b.pdf''] (Some (js ''{}''))"
  have fs: "files ?fd = [sample_file ''a.pdf'', sample_file ''b.pdf'']"
    by (simp add: sample_form_def)
  have k: "0 < length (files ?fd)" by (simp add: fs)
  have out: "file_outcome ?e (textSplitter_of ?fd) (pdfParser_of ?fd) 0 (files ?fd ! 0)
      = Inl (Error (js ''Invalid PDF''))"
    by (simp add: sample_file_outcome)
  have acc: "accepted ?e ?fd (Obj [])" by (rule sample_accepted)
  have pacc: "preview_accepted ?e ?fd" by (simp add: sample_preview_accepted)
  have n: "length sample_chunks = 10" by (simp add: sample_chunks_def)
  then have ne: "sample_chunks \<noteq> []" by auto
  have rows: "length (concat (map (\<lambda>j. file_rows ?e (Obj []) (textSplitter_of ?fd)
        (pdfParser_of ?fd) j (files ?fd ! j)) (filter (\<lambda>j. j \<noteq> 0) [0..<length (files ?fd)]))) = 10"
    by (simp add: file_rows_def sample_file_outcome fs upt_rec n ne
        sample_stored_row List.map_filter_simps)
  have docs: "length (filter (\<lambda>j. reaches_chunks ?e (textSplitter_of ?fd) (pdfParser_of ?fd) j
        (files ?fd ! j)) (filter (\<lambda>j. j \<noteq> 0) [0..<length (files ?fd)])) = 1"
    by (simp add: reaches_chunks_def sample_file_outcome fs upt_rec)
  have msg: "file_failed (files ?fd ! 0) (Error (js ''Invalid PDF''))
      = Response 400 (preview_error (js ''Failed to process file a.pdf: Invalid PDF''))"
    by (simp add: file_failed_def message_of_def sample_form_def sample_file_def js_def)
  from file_failure_upload_continues_preview_aborts [OF k out, of "Obj []"] acc pacc rows docs msg
  show ?thesis by auto
qed

subsection \<open>A request without metadata\<close>

text \<open>
  A response of the preview's loop over the files is the response to a file for which a
  call threw; when no call throws, the loop collects the chunks of the files.
\<close>

lemma preview_file_Inl:
  "preview_file e sp pp k f st = Inl response \<Longrightarrow>
   \<exists>err. file_outcome e sp pp k f = Inl err \<and> response = file_failed f err"
  by (auto simp: file_outcome_def preview_file_def Let_def split: sum.splits if_splits)

lemma preview_file_chunks:
  "file_outcome e sp pp k f = Inr x \<Longrightarrow>
   \<exists>st'. preview_file e sp pp k f st = Inr st'
      \<and> allChunks st' = allChunks st @ file_chunks e sp pp k f"
  by (auto simp: file_outcome_def file_chunks_def preview_file_def Let_def
      split: sum.splits if_splits)

lemma preview_loop_Inl:
  "preview_loop e sp pp k fs st = Inl response \<Longrightarrow>
   \<exists>j<length fs. \<exists>err. file_outcome e sp pp (k + j) (fs ! j) = Inl err
      \<and> response = file_failed (fs ! j) err"
proof (induction fs arbitrary: k st)
  case Nil
  then show ?case by simp
next
  case (Cons f fs)
  show ?case
  proof (cases "preview_file e sp pp k f st")
    case (Inl r)
    with Cons.prems have "r = response" by simp
    with Inl preview_file_Inl [of e sp pp k f st response]
    obtain err where "file_outcome e sp pp (k + 0) ((f # fs) ! 0) = Inl err"
      "response = file_failed ((f # fs) ! 0) err"
      by auto
    then show ?thesis by (intro exI [of _ 0]) auto
  next
    case (Inr st')
    with Cons.prems have "preview_loop e sp pp (k + 1) fs st' = Inl response" by simp
    from Cons.IH [OF this] obtain j err where "j < length fs"
      "file_outcome e sp pp (k + 1 + j) (fs ! j) = Inl err" "response = file_failed (fs ! j) err"
      by blast
    then have "Suc j < length (f # fs)
        \<and> file_outcome e sp pp (k + Suc j) ((f # fs) ! Suc j) = Inl err
        \<and> response = file_failed ((f # fs) ! Suc j) err"
      by simp
    then show ?thesis by blast
  qed
qed

lemma preview_loop_chunks:
  "\<forall>j<length fs. \<not> isl (file_outcome e sp pp (k + j) (fs ! j)) \<Longrightarrow>
   \<exists>st'. preview_loop e sp pp k fs st = Inr st'
      \<and> allChunks st' = allChunks st
           @ concat (map (\<lambda>j. file_chunks e sp pp (k + j) (fs ! j)) [0..<length fs])"
proof (induction fs arbitrary: k st)
  case Nil
  then show ?case by simp
next
  case (Cons f fs)
  from Cons.prems have "\<not> isl (file_outcome e sp pp k f)" by force
  then obtain x where "file_outcome e sp pp k f = Inr x"
    by (cases "file_outcome e sp pp k f") auto
  from preview_file_chunks [OF this] obtain st1 where
    st1: "preview_file e sp pp k f st = Inr st1"
      "allChunks st1 = allChunks st @ file_chunks e sp pp k f"
    by blast
  have "\<forall>j<length fs. \<not> isl (file_outcome e sp pp (k + 1 + j) (fs ! j))"
  proof (intro allI impI)
    fix j assume "j < length fs"
    then have "Suc j < length (f # fs)" by simp
    with Cons.prems have "\<not> isl (file_outcome e sp pp (k + Suc j) ((f # fs) ! Suc j))"
      by blast
    then show "\<not> isl (file_outcome e sp pp (k + 1 + j) (fs ! j))" by simp
  qed
  from Cons.IH [OF this, of st1] obtain st' where
    st': "preview_loop e sp pp (k + 1) fs st1 = Inr st'"
      "allChunks st' = allChunks st1
         @ concat (map (\<lambda>j. file_chunks e sp pp (k + 1 + j) (fs ! j)) [0..<length fs])"
    by blast
  have upt: "[0..<length (f # fs)] = 0 # map Suc [0..<length fs]"
    by (simp add: upt_conv_Cons map_Suc_upt del: upt_Suc)
  from st1 st' show ?case
    unfolding upt by (simp add: comp_def del: upt_Suc)
qed

text \<open>
  The preview route on a request with files whose metadata field is absent or empty, or
  parses, and whose splitter can be constructed: the response of the file that failed, or
  the response to the chunks of the files.
\<close>

lemma POST_preview_accepted:
  assumes "preview_accepted e fd"
  shows "(\<exists>k<length (files fd). \<exists>err.
            file_outcome e (textSplitter_of fd) (pdfParser_of fd) k (files fd ! k) = Inl err
            \<and> POST_preview e (Inr fd) = file_failed (files fd ! k) err)
         \<or> ((\<forall>k<length (files fd).
                \<not> isl (file_outcome e (textSplitter_of fd) (pdfParser_of fd) k (files fd ! k)))
            \<and> (\<exists>parse_time extracted.
                 POST_preview e (Inr fd) =
                   (if request_chunks e fd = []
                    then Response 400
                           (preview_error (js ''No chunks could be generated from the files''))
                    else case calculate_statistics (max_arguments e) (request_chunks e fd)
                                parse_time (pdfParser_of fd) extracted of
                           Inl err \<Rightarrow>
                             Response 500
                               (preview_error (js ''Internal server error: '' @ message_of err))
                         | Inr stats \<Rightarrow> Response 200 (preview_result True stats))))"
proof -
  let ?sp = "textSplitter_of fd" and ?pp = "pdfParser_of fd"
  let ?st0 = "\<lparr>allChunks = [], totalParseTime = 0, extractedMetadata = []\<rparr>"
  from assms have f: "files fd \<noteq> []"
    and s: "new_TextSplitter e (textSplitter_of fd) = None"
    and m: "falsy_string (metadata_field fd)
         \<or> (\<exists>md. JSON_parse e (ToString_field (metadata_field fd)) = Inr md)"
    by (simp_all add: preview_accepted_def)
  from m obtain md where md: "(if falsy_string (metadata_field fd) then Inr (Obj [])
            else JSON_parse e (ToString_field (metadata_field fd))) = Inr md"
    by (cases "falsy_string (metadata_field fd)") auto
  have post: "POST_preview e (Inr fd) =
      (case preview_loop e ?sp ?pp 0 (files fd) ?st0 of
         Inl response \<Rightarrow> response
       | Inr st \<Rightarrow>
           if length (allChunks st) = 0
           then Response 400 (preview_error (js ''No chunks could be generated from the files''))
           else
             (case calculate_statistics (max_arguments e) (allChunks st) (totalParseTime st)
                     ?pp (extractedMetadata st) of
                Inl err \<Rightarrow>
                  Response 500
                    (preview_error (js ''Internal server error: '' @ message_of err))
              | Inr stats \<Rightarrow> Response 200 (preview_result True stats)))"
  proof (cases "falsy_string (metadata_field fd)")
    case True
    with f s show ?thesis
      unfolding POST_preview_def Let_def
      by (simp add: textSplitter_of_def pdfParser_of_def cong: sum.case_cong if_cong)
  next
    case False
    with md have "JSON_parse e (ToString_field (metadata_field fd)) = Inr md" by simp
    with False f s show ?thesis
      unfolding POST_preview_def Let_def
      by (simp add: textSplitter_of_def pdfParser_of_def cong: sum.case_cong if_cong)
  qed
  show ?thesis
  proof (cases "\<exists>k<length (files fd). isl (file_outcome e ?sp ?pp k (files fd ! k))")
    case True
    define k where "k = (LEAST k. k < length (files fd)
        \<and> isl (file_outcome e ?sp ?pp k (files fd ! k)))"
    from True have kP: "k < length (files fd) \<and> isl (file_outcome e ?sp ?pp k (files fd ! k))"
      unfolding k_def by (rule LeastI_ex)
    have before: "\<forall>j<k. \<not> isl (file_outcome e ?sp ?pp j (files fd ! j))"
    proof (intro allI impI)
      fix j assume "j < k"
      then have "\<not> (j < length (files fd) \<and> isl (file_outcome e ?sp ?pp j (files fd ! j)))"
        unfolding k_def by (rule not_less_Least)
      with \<open>j < k\<close> kP show "\<not> isl (file_outcome e ?sp ?pp j (files fd ! j))" by simp
    qed
    from kP obtain err where err: "file_outcome e ?sp ?pp k (files fd ! k) = Inl err"
      by (cases "file_outcome e ?sp ?pp k (files fd ! k)") auto
    have "preview_loop e ?sp ?pp 0 (files fd) ?st0 = Inl (file_failed (files fd ! k) err)"
      by (rule preview_loop_first_thrown) (use kP err before in simp_all)
    with post have "POST_preview e (Inr fd) = file_failed (files fd ! k) err" by simp
    with kP err show ?thesis by blast
  next
    case False
    then have none: "\<forall>k<length (files fd). \<not> isl (file_outcome e ?sp ?pp k (files fd ! k))"
      by blast
    then have "\<forall>j<length (files fd). \<not> isl (file_outcome e ?sp ?pp (0 + j) (files fd ! j))"
      by simp
    from preview_loop_chunks [OF this, of ?st0] obtain st where
      st: "preview_loop e ?sp ?pp 0 (files fd) ?st0 = Inr st"
        "allChunks st = request_chunks e fd"
      by (auto simp: request_chunks_def)
    from post st have "POST_preview e (Inr fd) =
        (if request_chunks e fd = []
         then Response 400 (preview_error (js ''No chunks could be generated from the files''))
         else case calculate_statistics (max_arguments e) (request_chunks e fd)
                     (totalParseTime st) ?pp (extractedMetadata st) of
                Inl err \<Rightarrow>
                  Response 500
                    (preview_error (js ''Internal server error: '' @ message_of err))
              | Inr stats \<Rightarrow> Response 200 (preview_result True stats))"
      by simp
    with none show ?thesis by blast
  qed
qed








subsection \<open>The successful response of the preview route\<close>

text \<open>
  A response the loop over the files returns has status 400, so a response of status 200
  carries the statistics that were computed, with no error, for a list of chunks that is
  not empty.
\<close>

lemma preview_file_status:
  "preview_file e sp pp k f st = Inl response \<Longrightarrow> status response = 400"
  by (auto simp: preview_file_def file_failed_def Let_def split: sum.splits if_splits)

lemma preview_loop_status:
  "preview_loop e sp pp k fs st = Inl response \<Longrightarrow> status response = 400"
proof (induction fs arbitrary: k st)
  case Nil
  then show ?case by simp
next
  case (Cons f fs)
  show ?case
  proof (cases "preview_file e sp pp k f st")
    case (Inl r)
    with Cons.prems have "r = response" by simp
    with Inl show ?thesis by (simp add: preview_file_status)
  next
    case (Inr st')
    with Cons.prems have "preview_loop e sp pp (k + 1) fs st' = Inl response" by simp
    then show ?thesis by (rule Cons.IH)
  qed
qed

lemma POST_preview_statistics:
  assumes "status (POST_preview e request) = 200"
  shows "\<exists>chunks parse_time pdfParser extracted stats.
      chunks \<noteq> []
      \<and> calculate_statistics (max_arguments e) chunks parse_time pdfParser extracted = Inr stats
      \<and> body (POST_preview e request) = preview_result True stats"
proof (cases request)
  case (Inl err)
  with assms show ?thesis by (simp add: POST_preview_def)
next
  case (Inr fd)
  let ?sp = "textSplitter_of fd" and ?pp = "pdfParser_of fd"
  let ?st0 = "\<lparr>allChunks = [], totalParseTime = 0, extractedMetadata = []\<rparr>"
  show ?thesis
  proof (cases "preview_loop e ?sp ?pp 0 (files fd) ?st0")
    case (Inl response)
    then have "status response = 400" by (rule preview_loop_status)
    with assms Inr Inl show ?thesis
      by (auto simp: POST_preview_def Let_def textSplitter_of_def pdfParser_of_def
          split: if_splits sum.splits option.splits)
  next
    case st: (Inr st)
    with assms Inr have "allChunks st \<noteq> []
      \<and> (\<exists>stats. calculate_statistics (max_arguments e) (allChunks st) (totalParseTime st) ?pp
             (extractedMetadata st) = Inr stats
           \<and> POST_preview e request = Response 200 (preview_result True stats))"
      by (auto simp: POST_preview_def Let_def textSplitter_of_def pdfParser_of_def
          split: if_splits sum.splits option.splits)
    then show ?thesis by (metis response.sel(2))
  qed
qed

text \<open>
  When no file fails and the files yield more chunks than a call takes arguments, the
  preview route answers with status 500 and the message of the \<^verbatim>\<open>RangeError\<close>.
\<close>

lemma POST_preview_RangeError:
  assumes "preview_accepted e fd"
    and "\<forall>k<length (files fd).
           \<not> isl (file_outcome e (textSplitter_of fd) (pdfParser_of fd) k (files fd ! k))"
    and "max_arguments e < length (request_chunks e fd)"
  shows "POST_preview e (Inr fd) =
     Response 500
       (preview_error (js ''Internal server error: Maximum call stack size exceeded''))"
proof -
  from assms(3) have ne: "request_chunks e fd \<noteq> []" by auto
  from POST_preview_accepted [OF assms(1)] assms(2)
  obtain parse_time extracted where "POST_preview e (Inr fd) =
      (if request_chunks e fd = []
       then Response 400 (preview_error (js ''No chunks could be generated from the files''))
       else case calculate_statistics (max_arguments e) (request_chunks e fd)
                   parse_time (pdfParser_of fd) extracted of
              Inl err \<Rightarrow>
                Response 500 (preview_error (js ''Internal server error: '' @ message_of err))
            | Inr stats \<Rightarrow> Response 200 (preview_result True stats))"
    by (metis isl_def)
  with ne calculate_statistics_RangeError [OF assms(3)] show ?thesis
    by (simp add: message_of_def js_def)
qed

end
